theory Spec2Isabelle
  imports Complex_Main
begin

section \<open>Floating-point values and n-dimensional arrays\<close>

text \<open>
  The notebook \<open>lab/02 - Training with Pytorch.ipynb\<close> computes the anomaly thresholds with
  numpy on arrays of IEEE doubles. An array element is modelled by \<open>fl\<close>: a finite value,
  plus or minus infinity, or NaN. The operations follow IEEE 754 on the special values:
  \<open>inf - inf\<close> and \<open>0 / 0\<close> are NaN, and NaN is absorbing. A finite value is an exact
  real and finite results are not rounded and do not overflow, which doubles do: the
  theorems below use the finite arithmetic only for the sign of a result and for sums of
  zeros, which rounding and overflow keep, and for values at concrete small inputs where
  the double arithmetic is exact.
\<close>

datatype fl = Fin real | PInf | NInf | NaN

fun fl_neg :: "fl \<Rightarrow> fl" where
  "fl_neg (Fin r) = Fin (- r)"
| "fl_neg PInf = NInf"
| "fl_neg NInf = PInf"
| "fl_neg NaN = NaN"

fun fl_add :: "fl \<Rightarrow> fl \<Rightarrow> fl" where
  "fl_add NaN _ = NaN"
| "fl_add _ NaN = NaN"
| "fl_add (Fin a) (Fin b) = Fin (a + b)"
| "fl_add PInf NInf = NaN"
| "fl_add NInf PInf = NaN"
| "fl_add PInf _ = PInf"
| "fl_add _ PInf = PInf"
| "fl_add NInf _ = NInf"
| "fl_add _ NInf = NInf"

definition fl_sub :: "fl \<Rightarrow> fl \<Rightarrow> fl" where
  "fl_sub a b = fl_add a (fl_neg b)"

fun fl_abs :: "fl \<Rightarrow> fl" where
  "fl_abs (Fin r) = Fin \<bar>r\<bar>"
| "fl_abs PInf = PInf"
| "fl_abs NInf = PInf"
| "fl_abs NaN = NaN"

text \<open>Division of a sum by the number of summands, as \<open>np.mean\<close> does (\<open>ret / rcount\<close>).\<close>

fun fl_div_count :: "fl \<Rightarrow> nat \<Rightarrow> fl" where
  "fl_div_count NaN _ = NaN"
| "fl_div_count (Fin r) n =
     (if n = 0 then (if r = 0 then NaN else if 0 < r then PInf else NInf)
      else Fin (r / real n))"
| "fl_div_count PInf _ = PInf"
| "fl_div_count NInf _ = NInf"

definition fl_sum :: "fl list \<Rightarrow> fl" where
  "fl_sum xs = foldr fl_add xs (Fin 0)"

text \<open>The mean of a slice; of an empty slice it is \<open>0.0 / 0\<close>, that is NaN.\<close>

definition fl_mean :: "fl list \<Rightarrow> fl" where
  "fl_mean xs = fl_div_count (fl_sum xs) (length xs)"

fun isnan :: "fl \<Rightarrow> bool" where
  "isnan NaN = True"
| "isnan _ = False"

text \<open>\<open>v >= 0\<close> on doubles: false for NaN.\<close>

fun fl_nonneg :: "fl \<Rightarrow> bool" where
  "fl_nonneg (Fin r) = (0 \<le> r)"
| "fl_nonneg PInf = True"
| "fl_nonneg NInf = False"
| "fl_nonneg NaN = False"

text \<open>
  An \<open>ndarray\<close> is its shape and its elements in row-major (C) order. A well-formed array
  has as many elements as its shape says.
\<close>

record ndarray =
  shape :: "nat list"
  data :: "fl list"

definition size_nd :: "ndarray \<Rightarrow> nat" where
  "size_nd a = prod_list (shape a)"

definition wf_nd :: "ndarray \<Rightarrow> bool" where
  "wf_nd a = (length (data a) = size_nd a)"

datatype error =
    UnpackError
  | ReshapeError
  | AxesError
  | BroadcastError

definition bind_err :: "error + 'a \<Rightarrow> ('a \<Rightarrow> error + 'b) \<Rightarrow> error + 'b" where
  "bind_err m f = (case m of Inl e \<Rightarrow> Inl e | Inr v \<Rightarrow> f v)"

text \<open>
  \<open>a.reshape(d0, d1, d2)\<close>: the element order is kept; numpy raises a ValueError when the
  new shape does not have the array's number of elements.
\<close>

definition reshape3 :: "ndarray \<Rightarrow> nat \<Rightarrow> nat \<Rightarrow> nat \<Rightarrow> error + ndarray" where
  "reshape3 a d0 d1 d2 =
     (if size_nd a = d0 * d1 * d2 then Inr \<lparr>shape = [d0, d1, d2], data = data a\<rparr>
      else Inl ReshapeError)"

text \<open>
  \<open>a.transpose((0,2,1))\<close> of a three-dimensional array: element \<open>(i, k, j)\<close> of the result
  is element \<open>(i, j, k)\<close> of \<open>a\<close>. On an array of another rank numpy raises
  (axes do not match the array).
\<close>

definition transpose_021 :: "ndarray \<Rightarrow> error + ndarray" where
  "transpose_021 a =
     (case shape a of
        [d0, d1, d2] \<Rightarrow>
          Inr \<lparr>shape = [d0, d2, d1],
               data = concat (map (\<lambda>i. concat (map (\<lambda>k. map (\<lambda>j.
                        data a ! ((i * d1 + j) * d2 + k)) [0..<d1]) [0..<d2])) [0..<d0])\<rparr>
      | _ \<Rightarrow> Inl AxesError)"

text \<open>\<open>a.transpose((1,0))\<close> of a two-dimensional array.\<close>

definition transpose_10 :: "ndarray \<Rightarrow> error + ndarray" where
  "transpose_10 a =
     (case shape a of
        [d0, d1] \<Rightarrow>
          Inr \<lparr>shape = [d1, d0],
               data = concat (map (\<lambda>j. map (\<lambda>i. data a ! (i * d1 + j)) [0..<d0]) [0..<d1])\<rparr>
      | _ \<Rightarrow> Inl AxesError)"

text \<open>
  \<open>y - x\<close>: in the notebook both operands have been reshaped with the same dimensions, so
  only the case of equal shapes is modelled elementwise; any other pair of shapes is an
  error here (numpy would try to broadcast).
\<close>

definition np_sub :: "ndarray \<Rightarrow> ndarray \<Rightarrow> error + ndarray" where
  "np_sub a b =
     (if shape a = shape b
      then Inr \<lparr>shape = shape a, data = map (\<lambda>(u, v). fl_sub u v) (zip (data a) (data b))\<rparr>
      else Inl BroadcastError)"

definition np_abs :: "ndarray \<Rightarrow> ndarray" where
  "np_abs a = \<lparr>shape = shape a, data = map fl_abs (data a)\<rparr>"

text \<open>
  \<open>np.mean(a, axis=1)\<close>: the second axis is averaged away. With \<open>inner\<close> the number of
  elements under one index of the second axis, element \<open>(i, k)\<close> of the result is the mean
  of the elements \<open>(i, j, k)\<close> over all \<open>j\<close>. An array of rank below two has no axis 1.
\<close>

definition mean_axis1 :: "ndarray \<Rightarrow> error + ndarray" where
  "mean_axis1 a =
     (case shape a of
        d0 # d1 # rest \<Rightarrow>
          (let inner = prod_list rest in
           Inr \<lparr>shape = d0 # rest,
                data = concat (map (\<lambda>i. map (\<lambda>k. fl_mean (map (\<lambda>j.
                         data a ! ((i * d1 + j) * inner + k)) [0..<d1])) [0..<inner]) [0..<d0])\<rparr>)
      | _ \<Rightarrow> Inl AxesError)"

text \<open>\<open>a[np.isnan(a)] = 0\<close>.\<close>

definition zero_nan :: "fl \<Rightarrow> fl" where
  "zero_nan v = (if isnan v then Fin 0 else v)"

definition zero_nans :: "ndarray \<Rightarrow> ndarray" where
  "zero_nans a = \<lparr>shape = shape a, data = map zero_nan (data a)\<rparr>"

section \<open>The threshold computation (Part 3/4, MAE cell)\<close>

text \<open>
  The cell, after the two stacks have been loaded:
  \<^verbatim>\<open>
  n_samples,n_features,n_rows,n_cols = x_inputs.shape
  x_inputs = x_inputs.reshape(n_samples, n_features, n_rows*n_cols).transpose((0,2,1))
  y_preds = y_preds.reshape(n_samples, n_features, n_rows*n_cols).transpose((0,2,1))
  mae_loss = np.mean(np.abs(y_preds - x_inputs), axis=1).transpose((1,0))
  mae_loss[np.isnan(mae_loss)] = 0
  thresholds = np.mean(mae_loss, axis=1)
  \<close>
  \<open>prepare\<close> is the reshape and transpose applied to either stack, \<open>mae_loss\<close> the array of
  that name after its NaN entries have been zeroed, \<open>thresholds\<close> the result.
\<close>

definition prepare :: "ndarray \<Rightarrow> nat \<Rightarrow> nat \<Rightarrow> nat \<Rightarrow> nat \<Rightarrow> error + ndarray" where
  "prepare a n_samples n_features n_rows n_cols =
     bind_err (reshape3 a n_samples n_features (n_rows * n_cols)) transpose_021"

definition mae_loss_raw :: "ndarray \<Rightarrow> ndarray \<Rightarrow> error + ndarray" where
  "mae_loss_raw x_inputs y_preds =
     (case shape x_inputs of
        [n_samples, n_features, n_rows, n_cols] \<Rightarrow>
          bind_err (prepare x_inputs n_samples n_features n_rows n_cols) (\<lambda>x3.
          bind_err (prepare y_preds n_samples n_features n_rows n_cols) (\<lambda>y3.
          bind_err (np_sub y3 x3) (\<lambda>d.
          bind_err (mean_axis1 (np_abs d)) transpose_10)))
      | _ \<Rightarrow> Inl UnpackError)"

definition mae_loss :: "ndarray \<Rightarrow> ndarray \<Rightarrow> error + ndarray" where
  "mae_loss x_inputs y_preds =
     bind_err (mae_loss_raw x_inputs y_preds) (\<lambda>m. Inr (zero_nans m))"

definition thresholds :: "ndarray \<Rightarrow> ndarray \<Rightarrow> error + ndarray" where
  "thresholds x_inputs y_preds = bind_err (mae_loss x_inputs y_preds) mean_axis1"

section \<open>Reference values for the thresholds\<close>

text \<open>
  Element \<open>(n, f, r, c)\<close> of a stack read with the dimensions \<open>(_, F, R, C)\<close>, in row-major
  order.
\<close>

definition elem4 :: "ndarray \<Rightarrow> nat \<Rightarrow> nat \<Rightarrow> nat \<Rightarrow> nat \<Rightarrow> nat \<Rightarrow> nat \<Rightarrow> nat \<Rightarrow> fl" where
  "elem4 a F R C n f r c = data a ! (((n * F + f) * R + r) * C + c)"

text \<open>
  The per-feature reading of the specification: the mean absolute error of sample \<open>n\<close> at
  feature \<open>f\<close> over all (row, column) locations, and the threshold of feature \<open>f\<close>: the mean
  over the samples of these values, a NaN among them counted as zero.
\<close>

definition spec_mae :: "ndarray \<Rightarrow> ndarray \<Rightarrow> nat \<Rightarrow> nat \<Rightarrow> nat \<Rightarrow> nat \<Rightarrow> nat \<Rightarrow> fl" where
  "spec_mae x y F R C n f =
     fl_mean (concat (map (\<lambda>r. map (\<lambda>c.
       fl_abs (fl_sub (elem4 y F R C n f r c) (elem4 x F R C n f r c))) [0..<C]) [0..<R]))"

definition spec_threshold :: "ndarray \<Rightarrow> ndarray \<Rightarrow> nat \<Rightarrow> nat \<Rightarrow> nat \<Rightarrow> nat \<Rightarrow> nat \<Rightarrow> fl" where
  "spec_threshold x y N F R C f = fl_mean (map (\<lambda>n. zero_nan (spec_mae x y F R C n f)) [0..<N])"

text \<open>The same mean written over the flattened location axis of length \<open>n_locs\<close>.\<close>

definition flat_mae :: "ndarray \<Rightarrow> ndarray \<Rightarrow> nat \<Rightarrow> nat \<Rightarrow> nat \<Rightarrow> nat \<Rightarrow> fl" where
  "flat_mae x y n_features n_locs n f =
     fl_mean (map (\<lambda>l. fl_abs (fl_sub (data y ! ((n * n_features + f) * n_locs + l))
                                       (data x ! ((n * n_features + f) * n_locs + l))))
                  [0..<n_locs])"

text \<open>
  The per-location reading of the specification's component design: for every sample and
  every (row, column) location the mean absolute difference across the feature axis, and
  one threshold per location, the mean of these over the samples.
\<close>

definition spec_location_mae :: "ndarray \<Rightarrow> ndarray \<Rightarrow> nat \<Rightarrow> nat \<Rightarrow> nat \<Rightarrow> nat \<Rightarrow> nat \<Rightarrow> nat \<Rightarrow> fl" where
  "spec_location_mae x y F R C n r c =
     fl_mean (map (\<lambda>f. fl_abs (fl_sub (elem4 y F R C n f r c) (elem4 x F R C n f r c))) [0..<F])"

definition spec_location_thresholds :: "ndarray \<Rightarrow> ndarray \<Rightarrow> nat \<Rightarrow> nat \<Rightarrow> nat \<Rightarrow> nat \<Rightarrow> fl list" where
  "spec_location_thresholds x y N F R C =
     concat (map (\<lambda>r. map (\<lambda>c.
       fl_mean (map (\<lambda>n. zero_nan (spec_location_mae x y F R C n r c)) [0..<N])) [0..<C]) [0..<R])"

text \<open>Classes of values used in the proofs.\<close>

fun nonneg_or_nan :: "fl \<Rightarrow> bool" where
  "nonneg_or_nan NaN = True"
| "nonneg_or_nan v = fl_nonneg v"

fun zero_or_nan :: "fl \<Rightarrow> bool" where
  "zero_or_nan NaN = True"
| "zero_or_nan (Fin r) = (r = 0)"
| "zero_or_nan _ = False"

section \<open>Calls into the managed service\<close>

text \<open>
  Everything else in the notebook is a call into the SageMaker SDK. A call is modelled by
  its outcome, which the environment supplies: the value it returns, or the exception it
  raises. A cell records the calls it makes, in order, so that one can say which calls
  happened. \<open>ClientError code message\<close> is botocore's \<open>ClientError\<close> with the
  \<open>Code\<close> and \<open>Message\<close> of its \<open>response["Error"]\<close>, which the SDK always fills in.
\<close>

datatype exn =
    ClientError string string
  | KeyError string
  | IndexError
  | AssertionError
  | OtherException string

type_synonym response = "string \<rightharpoonup> string"

text \<open>
  The calls, with the arguments that matter here: \<open>AddTags resource_arn\<close>,
  \<open>ListTrainingJobs name_contains status_equals\<close>, \<open>AttachEstimator training_job_name\<close>,
  \<open>DescribeTrainingJob training_job_name\<close>, \<open>DownloadData bucket key_prefix path\<close>.
\<close>

datatype sdk_call =
    PipelineCreate
  | PipelineDescribe
  | AddTags string
  | ListTrainingJobs string string
  | AttachEstimator string
  | DescribeTrainingJob string
  | DownloadData string string string

text \<open>\<open>d[k]\<close> on a dictionary raises KeyError for a missing key.\<close>

definition get_item :: "response \<Rightarrow> string \<Rightarrow> exn + string" where
  "get_item d k = (case d k of None \<Rightarrow> Inl (KeyError k) | Some v \<Rightarrow> Inr v)"

text \<open>\<open>sub in s\<close> on strings.\<close>

fun starts_with :: "string \<Rightarrow> string \<Rightarrow> bool" where
  "starts_with s [] = True"
| "starts_with [] (p # ps) = False"
| "starts_with (c # cs) (p # ps) = (c = p \<and> starts_with cs ps)"

fun str_contains :: "string \<Rightarrow> string \<Rightarrow> bool" where
  "str_contains [] sub = (sub = [])"
| "str_contains (c # cs) sub = (starts_with (c # cs) sub \<or> str_contains cs sub)"

subsection \<open>Creating the pipeline\<close>

text \<open>
  \<^verbatim>\<open>
  try:
      response = pipeline.create(role_arn=role)
  except ClientError as e:
      error = e.response["Error"]
      if error["Code"] == "ValidationError" and "Pipeline names must be unique within" in error["Message"]:
          print(error["Message"])
          response = pipeline.describe()
      else:
          raise
  pipeline_arn = response["PipelineArn"]
  sm_client.add_tags(ResourceArn=pipeline_arn, Tags=[...])
  print(pipeline_arn)
  \<close>
\<close>

record pipeline_env =
  create_outcome :: "exn + response"
  describe_outcome :: "exn + response"
  add_tags_outcome :: "exn option"

record cell_run =
  calls :: "sdk_call list"
  printed :: "string list"
  outcome :: "exn + string"

definition tag_pipeline :: "pipeline_env \<Rightarrow> sdk_call list \<Rightarrow> string list \<Rightarrow> response \<Rightarrow> cell_run" where
  "tag_pipeline env cs out response =
     (case get_item response ''PipelineArn'' of
        Inl e \<Rightarrow> \<lparr>calls = cs, printed = out, outcome = Inl e\<rparr>
      | Inr pipeline_arn \<Rightarrow>
          (case add_tags_outcome env of
             Some e \<Rightarrow> \<lparr>calls = cs @ [AddTags pipeline_arn], printed = out, outcome = Inl e\<rparr>
           | None \<Rightarrow> \<lparr>calls = cs @ [AddTags pipeline_arn], printed = out @ [pipeline_arn],
                        outcome = Inr pipeline_arn\<rparr>))"

definition create_pipeline_cell :: "pipeline_env \<Rightarrow> cell_run" where
  "create_pipeline_cell env =
     (case create_outcome env of
        Inr response \<Rightarrow> tag_pipeline env [PipelineCreate] [] response
      | Inl (ClientError code message) \<Rightarrow>
          if code = ''ValidationError'' \<and> str_contains message ''Pipeline names must be unique within''
          then (case describe_outcome env of
                  Inr response \<Rightarrow> tag_pipeline env [PipelineCreate, PipelineDescribe] [message] response
                | Inl e \<Rightarrow> \<lparr>calls = [PipelineCreate, PipelineDescribe], printed = [message],
                             outcome = Inl e\<rparr>)
          else \<lparr>calls = [PipelineCreate], printed = [], outcome = Inl (ClientError code message)\<rparr>
      | Inl e \<Rightarrow> \<lparr>calls = [PipelineCreate], printed = [], outcome = Inl e\<rparr>)"

subsection \<open>The wait loops\<close>

text \<open>
  \<^verbatim>\<open>
  while True:
      resp = sm_client.describe_compilation_job(CompilationJobName=compilation_job_name)
      if resp['CompilationJobStatus'] in ['STARTING', 'INPROGRESS']:
          print('Running...')
      else:
          print(resp['CompilationJobStatus'], compilation_job_name)
          break
      time.sleep(5)
  \<close>
  The three loops differ in the describe call, the test of the status, the name printed and
  the seconds slept. \<open>describe i\<close> is the outcome of the describe call number \<open>i\<close>: a
  status, or an exception, which leaves the loop. The state counts the calls and the seconds
  slept and keeps the lines printed. A loop that never leaves has the value \<open>None\<close>.
\<close>

record wait_state =
  polls :: nat
  slept :: nat
  shown :: "string list"

partial_function (option) wait_loop ::
  "(string \<Rightarrow> bool) \<Rightarrow> nat \<Rightarrow> string \<Rightarrow> (nat \<Rightarrow> exn + string) \<Rightarrow> wait_state
     \<Rightarrow> ((exn + string) \<times> wait_state) option" where
  "wait_loop is_running interval name describe st =
     (case describe (polls st) of
        Inl e \<Rightarrow> Some (Inl e, st\<lparr>polls := Suc (polls st)\<rparr>)
      | Inr status \<Rightarrow>
          if is_running status
          then wait_loop is_running interval name describe
                 (st\<lparr>polls := Suc (polls st), slept := slept st + interval,
                     shown := shown st @ [''Running...'']\<rparr>)
          else Some (Inr status,
                 st\<lparr>polls := Suc (polls st), shown := shown st @ [status @ '' '' @ name]\<rparr>))"

definition wait_start :: wait_state where
  "wait_start = \<lparr>polls = 0, slept = 0, shown = []\<rparr>"

definition wait_pipeline_execution ::
  "string \<Rightarrow> (nat \<Rightarrow> exn + string) \<Rightarrow> ((exn + string) \<times> wait_state) option" where
  "wait_pipeline_execution pipeline_execution_arn describe_pipeline_execution =
     wait_loop (\<lambda>status. status = ''Executing'') 30 pipeline_execution_arn
       describe_pipeline_execution wait_start"

definition wait_compilation_job ::
  "string \<Rightarrow> (nat \<Rightarrow> exn + string) \<Rightarrow> ((exn + string) \<times> wait_state) option" where
  "wait_compilation_job compilation_job_name describe_compilation_job =
     wait_loop (\<lambda>status. List.member [''STARTING'', ''INPROGRESS''] status) 5 compilation_job_name
       describe_compilation_job wait_start"

text \<open>The edge packaging loop prints the compilation job's name too, as the notebook does.\<close>

definition wait_edge_packaging_job ::
  "string \<Rightarrow> (nat \<Rightarrow> exn + string) \<Rightarrow> ((exn + string) \<times> wait_state) option" where
  "wait_edge_packaging_job compilation_job_name describe_edge_packaging_job =
     wait_loop (\<lambda>status. List.member [''STARTING'', ''INPROGRESS''] status) 5 compilation_job_name
       describe_edge_packaging_job wait_start"

subsection \<open>After the pipeline run\<close>

text \<open>\<open>s.split(sep)\<close> and \<open>s.split(sep, n)\<close> for a one-character separator.\<close>

fun split_on :: "char \<Rightarrow> string \<Rightarrow> string list" where
  "split_on sep [] = [] # []"
| "split_on sep (c # cs) =
     (if c = sep then [] # split_on sep cs
      else (case split_on sep cs of
              w # ws \<Rightarrow> (c # w) # ws
            | [] \<Rightarrow> [c] # []))"

fun split_max :: "char \<Rightarrow> nat \<Rightarrow> string \<Rightarrow> string list" where
  "split_max sep 0 s = [s]"
| "split_max sep (Suc n) [] = [] # []"
| "split_max sep (Suc n) (c # cs) =
     (if c = sep then [] # split_max sep n cs
      else (case split_max sep (Suc n) cs of
              w # ws \<Rightarrow> (c # w) # ws
            | [] \<Rightarrow> [c] # []))"

text \<open>
  \<^verbatim>\<open>
  execution_id = pipeline_execution_arn.split('/')[-1]
  training_jobs = sm_client.list_training_jobs(NameContains=execution_id,
                      StatusEquals='Completed')['TrainingJobSummaries']
  assert(len(training_jobs) == 1) # it must have exactly one training job
  training_job_name=training_jobs[0]['TrainingJobName']
  estimator = sagemaker.estimator.Estimator.attach(training_job_name=training_job_name, ...)
  input_data = sm_client.describe_training_job(TrainingJobName=training_job_name)
  input_data = input_data['InputDataConfig'][0]['DataSource']['S3DataSource']['S3Uri']
  tokens = input_data.split('/', 3)
  sagemaker_session.download_data(bucket=tokens[2], key_prefix=tokens[3], path='data/input/')
  \<close>
  \<open>describe_training_job env name\<close> is the S3 URI read from the job's description, or the
  exception raised on the way to it. The cells that follow (thresholds, compilation,
  packaging, deployment) are \<open>later_cells\<close>, given the training job's name: the notebook
  runs its cells in order and a run stops at the first cell that raises.
\<close>

record setup_env =
  list_training_jobs :: "string \<Rightarrow> string \<Rightarrow> exn + response list"
  attach :: "string \<Rightarrow> exn option"
  describe_training_job :: "string \<Rightarrow> exn + string"
  download_data :: "string \<Rightarrow> string \<Rightarrow> string \<Rightarrow> exn option"

definition setup_cell :: "setup_env \<Rightarrow> string \<Rightarrow> sdk_call list \<times> (exn + string)" where
  "setup_cell env pipeline_execution_arn =
     (let execution_id = last (split_on CHR ''/'' pipeline_execution_arn);
          c1 = [ListTrainingJobs execution_id ''Completed'']
      in case list_training_jobs env execution_id ''Completed'' of
           Inl e \<Rightarrow> (c1, Inl e)
         | Inr training_jobs \<Rightarrow>
             if length training_jobs \<noteq> 1 then (c1, Inl AssertionError)
             else (case get_item (training_jobs ! 0) ''TrainingJobName'' of
                     Inl e \<Rightarrow> (c1, Inl e)
                   | Inr training_job_name \<Rightarrow>
                       (let c2 = c1 @ [AttachEstimator training_job_name] in
                        case attach env training_job_name of
                          Some e \<Rightarrow> (c2, Inl e)
                        | None \<Rightarrow>
                            (let c3 = c2 @ [DescribeTrainingJob training_job_name] in
                             case describe_training_job env training_job_name of
                               Inl e \<Rightarrow> (c3, Inl e)
                             | Inr input_data \<Rightarrow>
                                 (let tokens = split_max CHR ''/'' 3 input_data in
                                  if length tokens < 4 then (c3, Inl IndexError)
                                  else
                                    (let c4 = c3 @ [DownloadData (tokens ! 2) (tokens ! 3) ''data/input/''] in
                                     case download_data env (tokens ! 2) (tokens ! 3) ''data/input/'' of
                                       Some e \<Rightarrow> (c4, Inl e)
                                     | None \<Rightarrow> (c4, Inr training_job_name)))))))"

definition run_from_setup ::
  "setup_env \<Rightarrow> string \<Rightarrow> (string \<Rightarrow> sdk_call list \<times> (exn + unit)) \<Rightarrow> sdk_call list \<times> (exn + unit)" where
  "run_from_setup env pipeline_execution_arn later_cells =
     (case setup_cell env pipeline_execution_arn of
        (cs, Inl e) \<Rightarrow> (cs, Inl e)
      | (cs, Inr training_job_name) \<Rightarrow>
          (case later_cells training_job_name of (cs', r) \<Rightarrow> (cs @ cs', r)))"

section \<open>Lists laid out as grids\<close>

lemma length_concat_map_upt:
  "(\<And>i. i < A \<Longrightarrow> length (g i) = M) \<Longrightarrow> length (concat (map g [0..<A])) = A * M"
  by (induction A) simp_all

lemma idx2_less: "i < A \<Longrightarrow> j < B \<Longrightarrow> i * B + j < A * (B::nat)"
proof -
  assume a: "i < A" "j < B"
  then have "i * B + j < i * B + B" by simp
  also have "\<dots> = Suc i * B" by simp
  also have "\<dots> \<le> A * B" using a(1) by (intro mult_le_mono1) simp
  finally show ?thesis .
qed

lemma nth_concat_map_upt:
  assumes "\<And>i. i < A \<Longrightarrow> length (g i) = M" and "i < A" and "r < M"
  shows "concat (map g [0..<A]) ! (i * M + r) = g i ! r"
  using assms
proof (induction A)
  case 0
  then show ?case by simp
next
  case (Suc A)
  have len: "length (concat (map g [0..<A])) = A * M"
    using Suc.prems(1) by (simp add: length_concat_map_upt)
  show ?case
  proof (cases "i < A")
    case True
    then have "i * M + r < A * M"
      using Suc.prems(3) by (simp add: idx2_less)
    then show ?thesis using Suc True len by (simp add: nth_append)
  next
    case False
    then have "i = A" using Suc.prems(2) by simp
    then show ?thesis using len Suc.prems by (simp add: nth_append)
  qed
qed

lemma nth_grid2:
  "i < A \<Longrightarrow> j < B \<Longrightarrow>
   concat (map (\<lambda>i. map (\<lambda>j. g i j) [0..<B]) [0..<A]) ! (i * B + j) = g i j"
  by (subst nth_concat_map_upt [where M = B]) simp_all

lemma length_grid2:
  "length (concat (map (\<lambda>i. map (\<lambda>j. g i j) [0..<B]) [0..<A])) = A * B"
  by (rule length_concat_map_upt) simp

lemma length_grid3:
  "length (concat (map (\<lambda>i. concat (map (\<lambda>j. map (\<lambda>k. g i j k) [0..<C]) [0..<B])) [0..<A]))
     = A * B * C"
  by (simp add: length_concat_map_upt [where M = "B * C"] length_grid2)

lemma nth_grid3:
  assumes "i < A" "j < B" "k < C"
  shows "concat (map (\<lambda>i. concat (map (\<lambda>j. map (\<lambda>k. g i j k) [0..<C]) [0..<B])) [0..<A])
           ! ((i * B + j) * C + k) = g i j k"
proof -
  have e: "(i * B + j) * C + k = i * (B * C) + (j * C + k)"
    by (simp add: algebra_simps)
  have b: "j * C + k < B * C" using assms by (simp add: idx2_less)
  show ?thesis
    unfolding e
    by (subst nth_concat_map_upt [where M = "B * C"])
       (simp_all add: assms b length_grid2 nth_grid2)
qed

lemma idx3_less:
  "i < A \<Longrightarrow> j < B \<Longrightarrow> k < C \<Longrightarrow> (i * B + j) * C + k < A * B * (C::nat)"
  by (simp add: idx2_less)

lemma grid2_cong:
  "(\<And>i j. i < A \<Longrightarrow> j < B \<Longrightarrow> g i j = h i j) \<Longrightarrow>
   concat (map (\<lambda>i. map (\<lambda>j. g i j) [0..<B]) [0..<A])
     = concat (map (\<lambda>i. map (\<lambda>j. h i j) [0..<B]) [0..<A])"
  by (intro arg_cong [where f = concat] map_cong) simp_all

section \<open>Closed forms of the stages\<close>

lemma prepare_closed:
  assumes "size_nd a = N * F * (R * C)"
  shows "prepare a N F R C =
           Inr \<lparr>shape = [N, R * C, F],
                data = concat (map (\<lambda>n. concat (map (\<lambda>l. map (\<lambda>f.
                         data a ! ((n * F + f) * (R * C) + l)) [0..<F]) [0..<R * C])) [0..<N])\<rparr>"
  using assms by (simp add: prepare_def reshape3_def bind_err_def transpose_021_def)

lemma abs_diff_nth:
  assumes "length ys = M" "length xs = M" "i < M"
  shows "map fl_abs (map (\<lambda>(u, v). fl_sub u v) (zip ys xs)) ! i = fl_abs (fl_sub (ys ! i) (xs ! i))"
  using assms by simp

lemma mae_loss_raw_closed:
  assumes sx: "shape x = [N, F, R, C]" and sy: "size_nd y = N * F * R * C"
  shows "mae_loss_raw x y =
           Inr \<lparr>shape = [F, N],
                data = concat (map (\<lambda>f. map (\<lambda>n. flat_mae x y F (R * C) n f) [0..<N]) [0..<F])\<rparr>"
proof -
  define L where "L = R * C"
  define tr where "tr = (\<lambda>a::ndarray. concat (map (\<lambda>n. concat (map (\<lambda>l. map (\<lambda>f.
                         data a ! ((n * F + f) * L + l)) [0..<F]) [0..<L])) [0..<N]))"
  have szx: "size_nd x = N * F * (R * C)" using sx by (simp add: size_nd_def)
  have szy: "size_nd y = N * F * (R * C)" using sy by (simp add: mult.assoc)
  have px: "prepare x N F R C = Inr \<lparr>shape = [N, L, F], data = tr x\<rparr>"
    unfolding L_def tr_def by (rule prepare_closed [OF szx])
  have py: "prepare y N F R C = Inr \<lparr>shape = [N, L, F], data = tr y\<rparr>"
    unfolding L_def tr_def by (rule prepare_closed [OF szy])
  have len: "length (tr a) = N * L * F" for a
    unfolding tr_def by (rule length_grid3)
  have el: "tr a ! ((n * L + l) * F + f) = data a ! ((n * F + f) * L + l)"
    if "n < N" "l < L" "f < F" for a n l f
    unfolding tr_def using that by (rule nth_grid3)
  define ad where "ad = map fl_abs (map (\<lambda>(u, v). fl_sub u v) (zip (tr y) (tr x)))"
  have ad_el: "ad ! ((n * L + l) * F + f)
      = fl_abs (fl_sub (data y ! ((n * F + f) * L + l)) (data x ! ((n * F + f) * L + l)))"
    if "n < N" "l < L" "f < F" for n l f
  proof -
    have "(n * L + l) * F + f < N * L * F" using that by (rule idx3_less)
    then have "ad ! ((n * L + l) * F + f)
        = fl_abs (fl_sub (tr y ! ((n * L + l) * F + f)) (tr x ! ((n * L + l) * F + f)))"
      unfolding ad_def by (rule abs_diff_nth [OF len len])
    then show ?thesis by (simp only: el [OF that])
  qed
  have mean_el: "fl_mean (map (\<lambda>l. ad ! ((n * L + l) * F + f)) [0..<L]) = flat_mae x y F L n f"
    if "n < N" "f < F" for n f
    unfolding flat_mae_def using that
    by (intro arg_cong [where f = fl_mean] map_cong) (simp_all add: ad_el)
  define m where "m = concat (map (\<lambda>n. map (\<lambda>f. fl_mean (map (\<lambda>l.
                         ad ! ((n * L + l) * F + f)) [0..<L])) [0..<F]) [0..<N])"
  have m_eq: "m = concat (map (\<lambda>n. map (\<lambda>f. flat_mae x y F L n f) [0..<F]) [0..<N])"
    unfolding m_def by (rule grid2_cong) (rule mean_el)
  have stage: "mean_axis1 (np_abs \<lparr>shape = [N, L, F], data = map (\<lambda>(u, v). fl_sub u v) (zip (tr y) (tr x))\<rparr>)
      = Inr \<lparr>shape = [N, F], data = m\<rparr>"
    by (simp add: mean_axis1_def np_abs_def m_def ad_def)
  have tr10: "transpose_10 \<lparr>shape = [N, F], data = m\<rparr>
      = Inr \<lparr>shape = [F, N], data = concat (map (\<lambda>f. map (\<lambda>n. flat_mae x y F L n f) [0..<N]) [0..<F])\<rparr>"
  proof -
    have "concat (map (\<lambda>f. map (\<lambda>n. m ! (n * F + f)) [0..<N]) [0..<F])
        = concat (map (\<lambda>f. map (\<lambda>n. flat_mae x y F L n f) [0..<N]) [0..<F])"
      by (rule grid2_cong) (simp add: m_eq nth_grid2)
    then show ?thesis by (simp add: transpose_10_def)
  qed
  show ?thesis
    unfolding mae_loss_raw_def
    by (simp add: sx px py bind_err_def np_sub_def stage tr10 L_def [symmetric])
qed

lemma upt_grid:
  "map g [0..<R * C] = concat (map (\<lambda>r. map (\<lambda>c. g (r * C + c)) [0..<C]) [0..<R])"
proof (rule nth_equalityI)
  show "length (map g [0..<R * C]) = length (concat (map (\<lambda>r. map (\<lambda>c. g (r * C + c)) [0..<C]) [0..<R]))"
    by (simp add: length_grid2)
next
  fix l assume "l < length (map g [0..<R * C])"
  then have l: "l < R * C" by simp
  then have c: "0 < C" by (cases C) simp_all
  have d: "l div C < R" using l by (simp add: less_mult_imp_div_less)
  have m: "l mod C < C" using c by simp
  have "concat (map (\<lambda>r. map (\<lambda>c. g (r * C + c)) [0..<C]) [0..<R]) ! (l div C * C + l mod C)
      = g (l div C * C + l mod C)"
    using d m by (rule nth_grid2)
  then show "map g [0..<R * C] ! l = concat (map (\<lambda>r. map (\<lambda>c. g (r * C + c)) [0..<C]) [0..<R]) ! l"
    using l by simp
qed

lemma flat_mae_spec: "flat_mae x y F (R * C) n f = spec_mae x y F R C n f"
  unfolding flat_mae_def spec_mae_def elem4_def
  by (subst upt_grid) (simp add: algebra_simps)

lemma mae_loss_closed:
  assumes sx: "shape x = [N, F, R, C]" and sy: "size_nd y = N * F * R * C"
  shows "mae_loss x y =
           Inr \<lparr>shape = [F, N],
                data = concat (map (\<lambda>f. map (\<lambda>n. zero_nan (spec_mae x y F R C n f)) [0..<N]) [0..<F])\<rparr>"
  unfolding mae_loss_def
  by (simp add: mae_loss_raw_closed [OF sx sy] bind_err_def zero_nans_def map_concat o_def flat_mae_spec)

lemma thresholds_closed:
  assumes sx: "shape x = [N, F, R, C]" and sy: "size_nd y = N * F * R * C"
  shows "thresholds x y =
           Inr \<lparr>shape = [F], data = map (\<lambda>f. spec_threshold x y N F R C f) [0..<F]\<rparr>"
proof -
  define ml where "ml = concat (map (\<lambda>f. map (\<lambda>n. zero_nan (spec_mae x y F R C n f)) [0..<N]) [0..<F])"
  have "map (\<lambda>f. fl_mean (map (\<lambda>n. ml ! (f * N + n)) [0..<N])) [0..<F]
      = map (\<lambda>f. spec_threshold x y N F R C f) [0..<F]"
    unfolding spec_threshold_def ml_def
    by (intro map_cong arg_cong [where f = fl_mean] refl) (simp add: nth_grid2)
  then have "mean_axis1 \<lparr>shape = [F, N], data = ml\<rparr>
      = Inr \<lparr>shape = [F], data = map (\<lambda>f. spec_threshold x y N F R C f) [0..<F]\<rparr>"
    by (simp add: mean_axis1_def concat_map_singleton)
  then show ?thesis
    unfolding thresholds_def
    by (simp add: mae_loss_closed [OF sx sy] bind_err_def ml_def)
qed

section \<open>Sums and means of floating-point values\<close>

lemma fl_sum_Cons: "fl_sum (v # vs) = fl_add v (fl_sum vs)"
  by (simp add: fl_sum_def)

lemma fl_sum_Nil: "fl_sum [] = Fin 0"
  by (simp add: fl_sum_def)

lemma fl_abs_nonneg_or_nan: "nonneg_or_nan (fl_abs v)"
  by (cases v) simp_all

lemma fl_add_nonneg: "fl_nonneg a \<Longrightarrow> fl_nonneg b \<Longrightarrow> fl_nonneg (fl_add a b)"
  by (cases a; cases b) simp_all

lemma fl_add_nonneg_or_nan:
  "nonneg_or_nan a \<Longrightarrow> nonneg_or_nan b \<Longrightarrow> nonneg_or_nan (fl_add a b)"
  by (cases a; cases b) simp_all

lemma fl_sum_nonneg: "(\<And>v. v \<in> set vs \<Longrightarrow> fl_nonneg v) \<Longrightarrow> fl_nonneg (fl_sum vs)"
  by (induction vs) (simp_all add: fl_sum_Nil fl_sum_Cons fl_add_nonneg)

lemma fl_sum_nonneg_or_nan:
  "(\<And>v. v \<in> set vs \<Longrightarrow> nonneg_or_nan v) \<Longrightarrow> nonneg_or_nan (fl_sum vs)"
  by (induction vs) (simp_all add: fl_sum_Nil fl_sum_Cons fl_add_nonneg_or_nan)

lemma fl_div_count_nonneg: "fl_nonneg a \<Longrightarrow> 0 < n \<Longrightarrow> fl_nonneg (fl_div_count a n)"
  by (cases a) simp_all

lemma fl_div_count_nonneg_or_nan: "nonneg_or_nan a \<Longrightarrow> nonneg_or_nan (fl_div_count a n)"
  by (cases a) simp_all

lemma fl_mean_nonneg:
  "(\<And>v. v \<in> set vs \<Longrightarrow> fl_nonneg v) \<Longrightarrow> vs \<noteq> [] \<Longrightarrow> fl_nonneg (fl_mean vs)"
  by (simp add: fl_mean_def fl_sum_nonneg fl_div_count_nonneg)

lemma fl_mean_nonneg_or_nan:
  "(\<And>v. v \<in> set vs \<Longrightarrow> nonneg_or_nan v) \<Longrightarrow> nonneg_or_nan (fl_mean vs)"
  unfolding fl_mean_def by (intro fl_div_count_nonneg_or_nan fl_sum_nonneg_or_nan)

lemma zero_nan_nonneg: "nonneg_or_nan v \<Longrightarrow> fl_nonneg (zero_nan v)"
  by (cases v) (simp_all add: zero_nan_def)

lemma fl_nonneg_not_nan: "fl_nonneg v \<Longrightarrow> \<not> isnan v"
  by (cases v) simp_all

lemma zero_nan_not_nan: "\<not> isnan (zero_nan v)"
  by (cases v) (simp_all add: zero_nan_def)

lemma spec_mae_nonneg_or_nan: "nonneg_or_nan (spec_mae x y F R C n f)"
  unfolding spec_mae_def by (rule fl_mean_nonneg_or_nan) (auto simp: fl_abs_nonneg_or_nan)

lemma spec_threshold_nonneg: "0 < N \<Longrightarrow> fl_nonneg (spec_threshold x y N F R C f)"
  unfolding spec_threshold_def
  by (rule fl_mean_nonneg) (auto simp: zero_nan_nonneg spec_mae_nonneg_or_nan)

lemma fl_abs_sub_self: "zero_or_nan (fl_abs (fl_sub v v))"
  by (cases v) (simp_all add: fl_sub_def)

lemma fl_add_zero_or_nan: "zero_or_nan a \<Longrightarrow> zero_or_nan b \<Longrightarrow> zero_or_nan (fl_add a b)"
  by (cases a; cases b) simp_all

lemma fl_sum_zero_or_nan:
  "(\<And>v. v \<in> set vs \<Longrightarrow> zero_or_nan v) \<Longrightarrow> zero_or_nan (fl_sum vs)"
  by (induction vs) (simp_all add: fl_sum_Nil fl_sum_Cons fl_add_zero_or_nan)

lemma fl_div_count_zero_or_nan: "zero_or_nan a \<Longrightarrow> zero_or_nan (fl_div_count a n)"
  by (cases a) simp_all

lemma fl_mean_zero_or_nan:
  "(\<And>v. v \<in> set vs \<Longrightarrow> zero_or_nan v) \<Longrightarrow> zero_or_nan (fl_mean vs)"
  unfolding fl_mean_def by (intro fl_div_count_zero_or_nan fl_sum_zero_or_nan)

lemma zero_nan_zero: "zero_or_nan v \<Longrightarrow> zero_nan v = Fin 0"
  by (cases v) (simp_all add: zero_nan_def)

lemma fl_sum_zeros: "\<forall>v\<in>set vs. v = Fin 0 \<Longrightarrow> fl_sum vs = Fin 0"
  by (induction vs) (simp_all add: fl_sum_Nil fl_sum_Cons)

lemma fl_mean_zeros:
  assumes "\<And>v. v \<in> set vs \<Longrightarrow> v = Fin 0" and "vs \<noteq> []"
  shows "fl_mean vs = Fin 0"
proof -
  have "fl_sum vs = Fin 0" using assms(1) by (intro fl_sum_zeros) simp
  then show ?thesis using assms(2) by (simp add: fl_mean_def)
qed

lemma spec_mae_self: "zero_nan (spec_mae x x F R C n f) = Fin 0"
  unfolding spec_mae_def
  by (intro zero_nan_zero fl_mean_zero_or_nan) (auto simp: fl_abs_sub_self)

lemma spec_threshold_self: "0 < N \<Longrightarrow> spec_threshold x x N F R C f = Fin 0"
  unfolding spec_threshold_def by (rule fl_mean_zeros) (auto simp: spec_mae_self)

lemma spec_threshold_empty: "spec_threshold x y 0 F R C f = NaN"
  by (simp add: spec_threshold_def fl_mean_def fl_sum_def)

section \<open>Helper facts for evaluation and for the wait loops\<close>

lemma eval_defs:
  "wf_nd a = (length (data a) = size_nd a)"
  "size_nd a = prod_list (shape a)"
  by (simp_all add: wf_nd_def size_nd_def)

lemma wait_loop_running_steps:
  assumes "\<forall>i<k. \<exists>s. describe (polls st + i) = Inr s \<and> is_running s"
  shows "wait_loop is_running interval name describe st =
         wait_loop is_running interval name describe
           (st\<lparr>polls := polls st + k, slept := slept st + k * interval,
               shown := shown st @ replicate k ''Running...''\<rparr>)"
  using assms
proof (induction k arbitrary: st)
  case 0
  show ?case by simp
next
  case (Suc k)
  from Suc.prems obtain s where s: "describe (polls st) = Inr s" "is_running s"
    by (metis add.right_neutral zero_less_Suc)
  define st' where "st' = st\<lparr>polls := Suc (polls st), slept := slept st + interval,
                     shown := shown st @ [''Running...'']\<rparr>"
  have step: "wait_loop is_running interval name describe st
      = wait_loop is_running interval name describe st'"
    by (subst wait_loop.simps) (simp add: s st'_def)
  have "\<forall>i<k. \<exists>s. describe (polls st' + i) = Inr s \<and> is_running s"
    using Suc.prems by (auto simp: st'_def dest: spec [where x = "Suc _"])
  from Suc.IH [OF this] show ?case
    unfolding step by (simp add: st'_def replicate_append_same add.assoc)
qed

lemma wait_loop_exit:
  assumes "\<forall>i<k. \<exists>s. describe i = Inr s \<and> is_running s"
    and "describe k = Inr s" and "\<not> is_running s"
  shows "wait_loop is_running interval name describe wait_start =
         Some (Inr s, \<lparr>polls = Suc k, slept = k * interval,
                       shown = replicate k ''Running...'' @ [s @ '' '' @ name]\<rparr>)"
proof -
  have "wait_loop is_running interval name describe wait_start =
        wait_loop is_running interval name describe
          \<lparr>polls = k, slept = k * interval, shown = replicate k ''Running...''\<rparr>"
    using wait_loop_running_steps [of k describe wait_start is_running interval name] assms(1)
    by (simp add: wait_start_def)
  also have "\<dots> = Some (Inr s, \<lparr>polls = Suc k, slept = k * interval,
                       shown = replicate k ''Running...'' @ [s @ '' '' @ name]\<rparr>)"
    by (subst wait_loop.simps) (simp add: assms)
  finally show ?thesis .
qed

lemma wait_loop_raise:
  assumes "\<forall>i<k. \<exists>s. describe i = Inr s \<and> is_running s"
    and "describe k = Inl e"
  shows "wait_loop is_running interval name describe wait_start =
         Some (Inl e, \<lparr>polls = Suc k, slept = k * interval,
                       shown = replicate k ''Running...''\<rparr>)"
proof -
  have "wait_loop is_running interval name describe wait_start =
        wait_loop is_running interval name describe
          \<lparr>polls = k, slept = k * interval, shown = replicate k ''Running...''\<rparr>"
    using wait_loop_running_steps [of k describe wait_start is_running interval name] assms(1)
    by (simp add: wait_start_def)
  also have "\<dots> = Some (Inl e, \<lparr>polls = Suc k, slept = k * interval,
                       shown = replicate k ''Running...''\<rparr>)"
    by (subst wait_loop.simps) (simp add: assms)
  finally show ?thesis .
qed

lemma wait_loop_returns_stop:
  assumes "wait_loop is_running interval name describe st = Some y"
  shows "\<exists>k\<ge>polls st. \<not> (\<exists>s. describe k = Inr s \<and> is_running s)"
proof (rule wait_loop.raw_induct
    [where P = "\<lambda>is_running interval name describe st y.
                  \<exists>k\<ge>polls st. \<not> (\<exists>s. describe k = Inr s \<and> is_running s)",
     OF _ assms])
  fix wl :: "(string \<Rightarrow> bool) \<Rightarrow> nat \<Rightarrow> string \<Rightarrow> (nat \<Rightarrow> exn + string) \<Rightarrow> wait_state
     \<Rightarrow> ((exn + string) \<times> wait_state) option"
  fix is_running interval name describe st y
  assume IH: "\<And>is_running interval name describe st y.
      wl is_running interval name describe st = Some y \<Longrightarrow>
      \<exists>k\<ge>polls st. \<not> (\<exists>s. describe k = Inr s \<and> is_running s)"
  assume body: "(case describe (polls st) of
        Inl e \<Rightarrow> Some (Inl e, st\<lparr>polls := Suc (polls st)\<rparr>)
      | Inr status \<Rightarrow>
          if is_running status
          then wl is_running interval name describe
                 (st\<lparr>polls := Suc (polls st), slept := slept st + interval,
                     shown := shown st @ [''Running...'']\<rparr>)
          else Some (Inr status,
                 st\<lparr>polls := Suc (polls st), shown := shown st @ [status @ '' '' @ name]\<rparr>))
      = Some y"
  show "\<exists>k\<ge>polls st. \<not> (\<exists>s. describe k = Inr s \<and> is_running s)"
  proof (cases "\<exists>s. describe (polls st) = Inr s \<and> is_running s")
    case False
    then show ?thesis by blast
  next
    case True
    then obtain s where s: "describe (polls st) = Inr s" "is_running s" by blast
    with body have "wl is_running interval name describe
        (st\<lparr>polls := Suc (polls st), slept := slept st + interval,
            shown := shown st @ [''Running...'']\<rparr>) = Some y"
      by simp
    from IH [OF this] obtain k where "Suc (polls st) \<le> k"
      "\<not> (\<exists>s. describe k = Inr s \<and> is_running s)" by auto
    then show ?thesis by (auto intro!: exI [where x = k])
  qed
qed

lemma wait_loop_never_exits:
  assumes "\<forall>i. \<exists>s. describe i = Inr s \<and> is_running s"
  shows "wait_loop is_running interval name describe st = None"
proof (cases "wait_loop is_running interval name describe st")
  case None
  then show ?thesis .
next
  case (Some y)
  from wait_loop_returns_stop [OF this] assms show ?thesis by blast
qed

lemma wait_loop_break_only_if:
  assumes "wait_loop is_running interval name describe wait_start = Some (Inr s, st)"
  shows "\<not> is_running s \<and> 0 < polls st \<and> describe (polls st - 1) = Inr s \<and>
         (\<forall>i<polls st - 1. \<exists>r. describe i = Inr r \<and> is_running r) \<and>
         slept st = (polls st - 1) * interval"
proof -
  from wait_loop_returns_stop [OF assms]
  have ex: "\<exists>k. \<not> (\<exists>s. describe k = Inr s \<and> is_running s)" by blast
  define k where "k = (LEAST k. \<not> (\<exists>s. describe k = Inr s \<and> is_running s))"
  have stop: "\<not> (\<exists>s. describe k = Inr s \<and> is_running s)"
    unfolding k_def using ex by (rule LeastI_ex)
  have before: "\<forall>i<k. \<exists>s. describe i = Inr s \<and> is_running s"
    unfolding k_def using not_less_Least by blast
  show ?thesis
  proof (cases "describe k")
    case (Inl e)
    from wait_loop_raise [OF before Inl, of interval name] assms show ?thesis by simp
  next
    case (Inr s')
    with stop have "\<not> is_running s'" by simp
    from wait_loop_exit [OF before Inr this, of interval name] assms
    have "s = s'" "st = \<lparr>polls = Suc k, slept = k * interval,
                       shown = replicate k ''Running...'' @ [s' @ '' '' @ name]\<rparr>"
      by simp_all
    then show ?thesis using Inr \<open>\<not> is_running s'\<close> before by simp
  qed
qed

lemma member_running: "List.member [''STARTING'', ''INPROGRESS''] s = (s = ''STARTING'' \<or> s = ''INPROGRESS'')"
  by auto

lemma setup_cell_first_call:
  "\<exists>cs. fst (setup_cell env arn) = ListTrainingJobs (last (split_on CHR ''/'' arn)) ''Completed'' # cs"
  unfolding setup_cell_def Let_def
  by (simp split: sum.split option.split)

lemma run_from_setup_calls:
  "\<exists>cs. fst (run_from_setup env arn later_cells) = fst (setup_cell env arn) @ cs"
  unfolding run_from_setup_def
  by (cases "setup_cell env arn"; cases "snd (setup_cell env arn)")
     (auto split: prod.split)

lemma setup_cell_assert:
  assumes "list_training_jobs env (last (split_on CHR ''/'' arn)) ''Completed'' = Inr jobs"
    and "length jobs \<noteq> 1"
  shows "setup_cell env arn
      = ([ListTrainingJobs (last (split_on CHR ''/'' arn)) ''Completed''], Inl AssertionError)"
  using assms by (simp add: setup_cell_def Let_def)

lemma setup_cell_one_job:
  assumes "list_training_jobs env (last (split_on CHR ''/'' arn)) ''Completed'' = Inr [job]"
    and "job ''TrainingJobName'' = Some training_job_name"
  shows "\<exists>cs. fst (setup_cell env arn)
      = ListTrainingJobs (last (split_on CHR ''/'' arn)) ''Completed''
          # AttachEstimator training_job_name # cs"
  using assms unfolding setup_cell_def Let_def get_item_def
  by (simp split: sum.split option.split)

section \<open>The claims\<close>

text \<open>
  Claim C1. For a ground-truth stack of shape \<open>(N, F, R, C)\<close> and a prediction stack with as
  many elements, the threshold computation returns one value per feature: a vector of length
  \<open>F\<close>. Its entry for feature \<open>f\<close> is the mean, over the \<open>N\<close> samples, of the mean over all
  \<open>R * C\<close> (row, column) locations of the absolute difference between prediction and input
  at feature \<open>f\<close>, where a per-(sample, feature) mean that is NaN counts as zero. The means
  are those of the array arithmetic; nothing is said here about their distance to the mean
  taken in the real numbers.
\<close>

theorem thresholds_per_feature_mae:
  assumes "wf_nd x" and "wf_nd y" and "shape x = [N, F, R, C]" and "size_nd y = N * F * R * C"
  shows "\<exists>t. thresholds x y = Inr t \<and> shape t = [F] \<and> length (data t) = F \<and>
           (\<forall>f<F. data t ! f =
              fl_mean (map (\<lambda>n. if isnan (spec_mae x y F R C n f) then Fin 0
                                  else spec_mae x y F R C n f) [0..<N]))"
proof -
  have t: "thresholds x y =
      Inr \<lparr>shape = [F], data = map (\<lambda>f. spec_threshold x y N F R C f) [0..<F]\<rparr>"
    by (rule thresholds_closed [OF assms(3,4)])
  have "spec_threshold x y N F R C f =
      fl_mean (map (\<lambda>n. if isnan (spec_mae x y F R C n f) then Fin 0
                          else spec_mae x y F R C n f) [0..<N])" for f
    by (simp only: spec_threshold_def zero_nan_def)
  then show ?thesis using t by (simp cong: if_cong)
qed

text \<open>
  The theorem at two stacks of shape \<open>(2, 2, 1, 2)\<close>. The mean of the second sample at the
  first feature is NaN and counts as zero: the thresholds are \<open>(2 + 0) / 2 = 1\<close> and
  \<open>(3/2 + 9/2) / 2 = 3\<close>.
\<close>

theorem thresholds_per_feature_mae_witness:
  "wf_nd \<lparr>shape = [2, 2, 1, 2],
          data = [Fin 0, Fin 1, Fin 2, Fin 3, Fin 4, Fin 5, Fin 6, Fin 7]\<rparr> \<and>
   wf_nd \<lparr>shape = [2, 2, 1, 2],
          data = [Fin 1, Fin 4, Fin 3, Fin 5, NaN, Fin 0, Fin 0, Fin 10]\<rparr> \<and>
   size_nd \<lparr>shape = [2, 2, 1, 2],
            data = [Fin 1, Fin 4, Fin 3, Fin 5, NaN, Fin 0, Fin 0, Fin 10]\<rparr> = 2 * 2 * 1 * 2 \<and>
   thresholds \<lparr>shape = [2, 2, 1, 2],
               data = [Fin 0, Fin 1, Fin 2, Fin 3, Fin 4, Fin 5, Fin 6, Fin 7]\<rparr>
              \<lparr>shape = [2, 2, 1, 2],
               data = [Fin 1, Fin 4, Fin 3, Fin 5, NaN, Fin 0, Fin 0, Fin 10]\<rparr>
     = Inr \<lparr>shape = [2], data = [Fin 1, Fin 3]\<rparr>"
proof -
  let ?x = "\<lparr>shape = [2, 2, 1, 2],
      data = [Fin 0, Fin 1, Fin 2, Fin 3, Fin 4, Fin 5, Fin 6, Fin 7]\<rparr>"
  let ?y = "\<lparr>shape = [2, 2, 1, 2],
      data = [Fin 1, Fin 4, Fin 3, Fin 5, NaN, Fin 0, Fin 0, Fin 10]\<rparr>"
  have h: "wf_nd ?x" "wf_nd ?y" "shape ?x = [2, 2, 1, 2]" "size_nd ?y = 2 * 2 * 1 * 2"
    by (simp_all add: wf_nd_def size_nd_def)
  have r0: "fl_mean (map (\<lambda>n. if isnan (spec_mae ?x ?y 2 1 2 n 0) then Fin 0
                              else spec_mae ?x ?y 2 1 2 n 0) [0..<2]) = Fin 1"
    by code_simp
  have r1: "fl_mean (map (\<lambda>n. if isnan (spec_mae ?x ?y 2 1 2 n 1) then Fin 0
                              else spec_mae ?x ?y 2 1 2 n 1) [0..<2]) = Fin 3"
    by code_simp
  obtain t where t: "thresholds ?x ?y = Inr t" "shape t = [2]" "length (data t) = 2"
    and cl: "\<forall>f<2. data t ! f =
              fl_mean (map (\<lambda>n. if isnan (spec_mae ?x ?y 2 1 2 n f) then Fin 0
                                  else spec_mae ?x ?y 2 1 2 n f) [0..<2])"
    using thresholds_per_feature_mae [OF h] by blast
  have "data t ! 0 = Fin 1"
    by (rule trans [OF cl [rule_format, of 0] r0]) simp
  moreover have "data t ! 1 = Fin 3"
    by (rule trans [OF cl [rule_format, of 1] r1]) simp
  ultimately have "data t = [Fin 1, Fin 3]"
    using t(3) by (cases "data t"; cases "tl (data t)") auto
  then have "t = \<lparr>shape = [2], data = [Fin 1, Fin 3]\<rparr>"
    using t(2) by simp
  then show ?thesis using t(1) h by simp
qed

text \<open>
  Claim C2, amended. The reduction step takes, for every sample and every feature, the mean
  absolute difference across the \<open>R * C\<close> locations (axis 1 of the transposed arrays),
  producing after the transposition and the zeroing of NaN an array of shape \<open>(F, N)\<close>; the
  final output is the mean of that array over the \<open>N\<close> samples, a per-feature vector of
  length \<open>F\<close>.
\<close>

theorem thresholds_reduce_over_locations:
  assumes "wf_nd x" and "wf_nd y" and "shape x = [N, F, R, C]" and "size_nd y = N * F * R * C"
  shows "\<exists>m t. mae_loss x y = Inr m \<and> shape m = [F, N] \<and> length (data m) = F * N \<and>
           (\<forall>f<F. \<forall>n<N. data m ! (f * N + n) = zero_nan (spec_mae x y F R C n f)) \<and>
           thresholds x y = Inr t \<and> shape t = [F] \<and> length (data t) = F \<and>
           (\<forall>f<F. data t ! f = fl_mean (map (\<lambda>n. data m ! (f * N + n)) [0..<N]))"
proof -
  define m where "m = \<lparr>shape = [F, N],
      data = concat (map (\<lambda>f. map (\<lambda>n. zero_nan (spec_mae x y F R C n f)) [0..<N]) [0..<F])\<rparr>"
  have m: "mae_loss x y = Inr m"
    unfolding m_def by (rule mae_loss_closed [OF assms(3,4)])
  have el: "data m ! (f * N + n) = zero_nan (spec_mae x y F R C n f)" if "f < F" "n < N" for f n
    unfolding m_def using that by (simp add: nth_grid2)
  have t: "thresholds x y = Inr \<lparr>shape = [F], data = map (\<lambda>f. spec_threshold x y N F R C f) [0..<F]\<rparr>"
    by (rule thresholds_closed [OF assms(3,4)])
  have "spec_threshold x y N F R C f = fl_mean (map (\<lambda>n. data m ! (f * N + n)) [0..<N])"
    if "f < F" for f
    unfolding spec_threshold_def
    by (intro arg_cong [where f = fl_mean] map_cong refl) (simp add: el that)
  then show ?thesis
    using m t el by (simp add: m_def length_grid2)
qed

text \<open>
  The theorem at two samples with two features and one location, one prediction being NaN.
\<close>

theorem thresholds_reduce_over_locations_witness:
  "wf_nd \<lparr>shape = [2, 2, 1, 1], data = [Fin 0, Fin 0, Fin 0, Fin 0]\<rparr> \<and>
   wf_nd \<lparr>shape = [2, 2, 1, 1], data = [Fin 1, Fin 3, Fin 5, NaN]\<rparr> \<and>
   size_nd \<lparr>shape = [2, 2, 1, 1], data = [Fin 1, Fin 3, Fin 5, NaN]\<rparr> = 2 * 2 * 1 * 1 \<and>
   mae_loss \<lparr>shape = [2, 2, 1, 1], data = [Fin 0, Fin 0, Fin 0, Fin 0]\<rparr>
            \<lparr>shape = [2, 2, 1, 1], data = [Fin 1, Fin 3, Fin 5, NaN]\<rparr>
     = Inr \<lparr>shape = [2, 2], data = [Fin 1, Fin 5, Fin 3, Fin 0]\<rparr> \<and>
   thresholds \<lparr>shape = [2, 2, 1, 1], data = [Fin 0, Fin 0, Fin 0, Fin 0]\<rparr>
              \<lparr>shape = [2, 2, 1, 1], data = [Fin 1, Fin 3, Fin 5, NaN]\<rparr>
     = Inr \<lparr>shape = [2], data = [Fin 3, Fin (3 / 2)]\<rparr>"
proof -
  let ?x = "\<lparr>shape = [2, 2, 1, 1], data = [Fin 0, Fin 0, Fin 0, Fin 0]\<rparr>"
  let ?y = "\<lparr>shape = [2, 2, 1, 1], data = [Fin 1, Fin 3, Fin 5, NaN]\<rparr>"
  have h: "wf_nd ?x" "wf_nd ?y" "shape ?x = [2, 2, 1, 1]" "size_nd ?y = 2 * 2 * 1 * 1"
    by (simp_all add: eval_defs)
  have v: "mae_loss ?x ?y = Inr \<lparr>shape = [2, 2], data = [Fin 1, Fin 5, Fin 3, Fin 0]\<rparr>"
    "thresholds ?x ?y = Inr \<lparr>shape = [2], data = [Fin 3, Fin (3 / 2)]\<rparr>"
    by code_simp+
  from thresholds_reduce_over_locations [OF h] h v show ?thesis by simp
qed

text \<open>
  Claim C2 as stated fails: with one sample, two features and one location, the intermediate
  array has shape \<open>(2, 1)\<close>, not \<open>(R * C, N) = (1, 1)\<close>, and the result is the two
  per-feature values \<open>1\<close> and \<open>3\<close>, not the single per-location value \<open>2\<close>.
\<close>

theorem thresholds_per_location_counterexample:
  "mae_loss \<lparr>shape = [1, 2, 1, 1], data = [Fin 0, Fin 0]\<rparr>
            \<lparr>shape = [1, 2, 1, 1], data = [Fin 1, Fin 3]\<rparr>
     = Inr \<lparr>shape = [2, 1], data = [Fin 1, Fin 3]\<rparr> \<and>
   thresholds \<lparr>shape = [1, 2, 1, 1], data = [Fin 0, Fin 0]\<rparr>
              \<lparr>shape = [1, 2, 1, 1], data = [Fin 1, Fin 3]\<rparr>
     = Inr \<lparr>shape = [2], data = [Fin 1, Fin 3]\<rparr> \<and>
   spec_location_thresholds \<lparr>shape = [1, 2, 1, 1], data = [Fin 0, Fin 0]\<rparr>
              \<lparr>shape = [1, 2, 1, 1], data = [Fin 1, Fin 3]\<rparr> 1 2 1 1 = [Fin 2] \<and>
   thresholds \<lparr>shape = [1, 2, 1, 1], data = [Fin 0, Fin 0]\<rparr>
              \<lparr>shape = [1, 2, 1, 1], data = [Fin 1, Fin 3]\<rparr>
     \<noteq> Inr \<lparr>shape = [1 * 1],
             data = spec_location_thresholds \<lparr>shape = [1, 2, 1, 1], data = [Fin 0, Fin 0]\<rparr>
                      \<lparr>shape = [1, 2, 1, 1], data = [Fin 1, Fin 3]\<rparr> 1 2 1 1\<rparr>"
  by code_simp

text \<open>
  Claim C3, amended. For a stack of shape \<open>(N, F, R, C)\<close> with at least one sample and a
  prediction stack with as many elements, whatever their values, the computation raises no
  error, every NaN entry of the intermediate mean-absolute-error array is replaced by zero
  (the other entries are kept) before the final averaging, and no entry of the returned
  vector is NaN.
\<close>

theorem thresholds_nan_zeroed:
  assumes "wf_nd x" and "wf_nd y" and "shape x = [N, F, R, C]" and "size_nd y = N * F * R * C"
    and "0 < N"
  shows "\<exists>r m t. mae_loss_raw x y = Inr r \<and> mae_loss x y = Inr m \<and>
           length (data m) = length (data r) \<and>
           (\<forall>i<length (data r). data m ! i = (if isnan (data r ! i) then Fin 0 else data r ! i)) \<and>
           (\<forall>v\<in>set (data m). \<not> isnan v) \<and>
           thresholds x y = Inr t \<and> length (data t) = F \<and> (\<forall>v\<in>set (data t). \<not> isnan v)"
proof -
  have sy: "size_nd y = N * F * R * C" by (rule assms(4))
  obtain r where r: "mae_loss_raw x y = Inr r"
    using mae_loss_raw_closed [OF assms(3) sy] by blast
  have m: "mae_loss x y = Inr (zero_nans r)"
    by (simp add: mae_loss_def r bind_err_def)
  have t: "thresholds x y = Inr \<lparr>shape = [F], data = map (\<lambda>f. spec_threshold x y N F R C f) [0..<F]\<rparr>"
    by (rule thresholds_closed [OF assms(3) sy])
  have nt: "\<not> isnan (spec_threshold x y N F R C f)" for f
    using spec_threshold_nonneg [OF assms(5)] by (rule fl_nonneg_not_nan)
  have el: "\<forall>i<length (data r). data (zero_nans r) ! i
      = (if isnan (data r ! i) then Fin 0 else data r ! i)"
    by (simp add: zero_nans_def zero_nan_def)
  have nm: "\<forall>v\<in>set (data (zero_nans r)). \<not> isnan v"
    by (auto simp: zero_nans_def zero_nan_not_nan)
  have len: "length (data (zero_nans r)) = length (data r)"
    by (simp add: zero_nans_def)
  show ?thesis
    using r m t nt el nm len by auto
qed

text \<open>The theorem at stacks holding NaN and infinities; the prediction stack is flat.\<close>

theorem thresholds_nan_zeroed_witness:
  "wf_nd \<lparr>shape = [2, 1, 1, 2], data = [NaN, Fin 1, Fin 2, PInf]\<rparr> \<and>
   wf_nd \<lparr>shape = [4], data = [Fin 0, Fin 5, NaN, PInf]\<rparr> \<and>
   size_nd \<lparr>shape = [4], data = [Fin 0, Fin 5, NaN, PInf]\<rparr> = 2 * 1 * 1 * 2 \<and>
   (0::nat) < 2 \<and>
   thresholds \<lparr>shape = [2, 1, 1, 2], data = [NaN, Fin 1, Fin 2, PInf]\<rparr>
              \<lparr>shape = [4], data = [Fin 0, Fin 5, NaN, PInf]\<rparr>
     = Inr \<lparr>shape = [1], data = [Fin 0]\<rparr> \<and>
   \<not> isnan (Fin 0)"
proof -
  let ?x = "\<lparr>shape = [2, 1, 1, 2], data = [NaN, Fin 1, Fin 2, PInf]\<rparr>"
  let ?y = "\<lparr>shape = [4], data = [Fin 0, Fin 5, NaN, PInf]\<rparr>"
  have h: "wf_nd ?x" "wf_nd ?y" "shape ?x = [2, 1, 1, 2]" "size_nd ?y = 2 * 1 * 1 * 2" "(0::nat) < 2"
    by (simp_all add: eval_defs)
  have v: "thresholds ?x ?y = Inr \<lparr>shape = [1], data = [Fin 0]\<rparr>"
    by code_simp
  from thresholds_nan_zeroed [OF h] h v show ?thesis by simp
qed

text \<open>
  Claim C3 as stated fails for a stack without samples: the two inputs have the same number
  of elements (none), and the single returned entry is the mean of an empty slice, NaN.
\<close>

theorem thresholds_nan_counterexample:
  "wf_nd \<lparr>shape = [0, 1, 1, 1], data = []\<rparr> \<and>
   size_nd \<lparr>shape = [0, 1, 1, 1], data = []\<rparr> = 0 * 1 * 1 * 1 \<and>
   thresholds \<lparr>shape = [0, 1, 1, 1], data = []\<rparr> \<lparr>shape = [0, 1, 1, 1], data = []\<rparr>
     = Inr \<lparr>shape = [1], data = [NaN]\<rparr> \<and>
   isnan NaN"
  by code_simp

text \<open>
  Claim C4, amended. For every shape \<open>(N, F, R, C)\<close> with at least one sample, if the
  prediction stack is the input stack, every entry of the threshold vector is exactly zero
  (also where the stack holds NaN or infinities).
\<close>

theorem thresholds_identical_zero:
  assumes "wf_nd x" and "shape x = [N, F, R, C]" and "0 < N"
  shows "thresholds x x = Inr \<lparr>shape = [F], data = replicate F (Fin 0)\<rparr>"
proof -
  have sx: "size_nd x = N * F * R * C" using assms(2) by (simp add: size_nd_def)
  have "map (\<lambda>f. spec_threshold x x N F R C f) [0..<F] = map (\<lambda>f. Fin 0) [0..<F]"
    by (simp add: spec_threshold_self [OF assms(3)])
  then show ?thesis
    by (simp add: thresholds_closed [OF assms(2) sx] map_replicate_const)
qed

text \<open>The theorem at a stack that holds a NaN and an infinity.\<close>

theorem thresholds_identical_zero_witness:
  "wf_nd \<lparr>shape = [1, 2, 1, 2], data = [Fin 1, NaN, PInf, Fin (- 4)]\<rparr> \<and>
   (0::nat) < 1 \<and>
   thresholds \<lparr>shape = [1, 2, 1, 2], data = [Fin 1, NaN, PInf, Fin (- 4)]\<rparr>
              \<lparr>shape = [1, 2, 1, 2], data = [Fin 1, NaN, PInf, Fin (- 4)]\<rparr>
     = Inr \<lparr>shape = [2], data = [Fin 0, Fin 0]\<rparr>"
proof -
  let ?x = "\<lparr>shape = [1, 2, 1, 2], data = [Fin 1, NaN, PInf, Fin (- 4)]\<rparr>"
  have h: "wf_nd ?x" "shape ?x = [1, 2, 1, 2]" "(0::nat) < 1"
    by (simp_all add: eval_defs)
  from thresholds_identical_zero [OF h] h show ?thesis
    by (simp add: numeral_2_eq_2)
qed

text \<open>
  Claim C4 as stated fails for the shape \<open>(0, 2, 1, 1)\<close>: prediction and input are equal
  (and all zero, vacuously), and both returned entries are NaN.
\<close>

theorem thresholds_identical_counterexample:
  "wf_nd \<lparr>shape = [0, 2, 1, 1], data = []\<rparr> \<and>
   thresholds \<lparr>shape = [0, 2, 1, 1], data = []\<rparr> \<lparr>shape = [0, 2, 1, 1], data = []\<rparr>
     = Inr \<lparr>shape = [2], data = [NaN, NaN]\<rparr> \<and>
   NaN \<noteq> Fin 0"
  by code_simp

text \<open>
  Claim C5. Before the reduction each of the two stacks of shape \<open>(N, F, R, C)\<close> is
  reshaped to \<open>(N, F, R * C)\<close>, keeping its elements in order, and then transposed to the
  axis order \<open>(N, R * C, F)\<close>: element \<open>(n, r * C + c, f)\<close> of the result is element
  \<open>(n, f, r, c)\<close> of the stack. The reduction works on these two arrays.
\<close>

theorem prepare_reshape_transpose:
  assumes "wf_nd x" and "wf_nd y" and "shape x = [N, F, R, C]" and "shape y = [N, F, R, C]"
  shows "\<exists>x3 xt y3 yt.
           reshape3 x N F (R * C) = Inr x3 \<and> shape x3 = [N, F, R * C] \<and> data x3 = data x \<and>
           transpose_021 x3 = Inr xt \<and> prepare x N F R C = Inr xt \<and> shape xt = [N, R * C, F] \<and>
           wf_nd xt \<and>
           reshape3 y N F (R * C) = Inr y3 \<and> shape y3 = [N, F, R * C] \<and> data y3 = data y \<and>
           transpose_021 y3 = Inr yt \<and> prepare y N F R C = Inr yt \<and> shape yt = [N, R * C, F] \<and>
           wf_nd yt \<and>
           (\<forall>n<N. \<forall>f<F. \<forall>r<R. \<forall>c<C.
              data xt ! ((n * (R * C) + (r * C + c)) * F + f) = elem4 x F R C n f r c \<and>
              data yt ! ((n * (R * C) + (r * C + c)) * F + f) = elem4 y F R C n f r c) \<and>
           mae_loss_raw x y =
             bind_err (np_sub yt xt) (\<lambda>d. bind_err (mean_axis1 (np_abs d)) transpose_10)"
proof -
  define tr where "tr = (\<lambda>a::ndarray. \<lparr>shape = [N, R * C, F],
      data = concat (map (\<lambda>n. concat (map (\<lambda>l. map (\<lambda>f.
               data a ! ((n * F + f) * (R * C) + l)) [0..<F]) [0..<R * C])) [0..<N])\<rparr>)"
  have sz: "size_nd a = N * F * (R * C)" if "shape a = [N, F, R, C]" for a
    using that by (simp add: size_nd_def)
  have r3: "reshape3 a N F (R * C) = Inr \<lparr>shape = [N, F, R * C], data = data a\<rparr>"
    if "shape a = [N, F, R, C]" for a
    using sz [OF that] by (simp add: reshape3_def)
  have t3: "transpose_021 \<lparr>shape = [N, F, R * C], data = data a\<rparr> = Inr (tr a)" for a
    by (simp add: transpose_021_def tr_def)
  have pr: "prepare a N F R C = Inr (tr a)" if "shape a = [N, F, R, C]" for a
    unfolding tr_def by (rule prepare_closed [OF sz [OF that]])
  have wf: "wf_nd (tr a)" for a
    by (simp add: wf_nd_def size_nd_def tr_def length_grid3)
  have el: "data (tr a) ! ((n * (R * C) + (r * C + c)) * F + f) = elem4 a F R C n f r c"
    if "n < N" "f < F" "r < R" "c < C" for a n f r c
  proof -
    have l: "r * C + c < R * C" using that by (simp add: idx2_less)
    have "data (tr a) ! ((n * (R * C) + (r * C + c)) * F + f)
        = data a ! ((n * F + f) * (R * C) + (r * C + c))"
      unfolding tr_def using that(1) l that(2) by (simp add: nth_grid3)
    also have "(n * F + f) * (R * C) + (r * C + c) = ((n * F + f) * R + r) * C + c"
      by (simp add: algebra_simps)
    finally show ?thesis by (simp add: elem4_def)
  qed
  have raw: "mae_loss_raw x y =
      bind_err (np_sub (tr y) (tr x)) (\<lambda>d. bind_err (mean_axis1 (np_abs d)) transpose_10)"
    by (simp add: mae_loss_raw_def assms(3) pr [OF assms(3)] pr [OF assms(4)] bind_err_def)
  have shp: "shape (tr a) = [N, R * C, F]" for a by (simp add: tr_def)
  show ?thesis
    apply (rule exI [where x = "\<lparr>shape = [N, F, R * C], data = data x\<rparr>"])
    apply (rule exI [where x = "tr x"])
    apply (rule exI [where x = "\<lparr>shape = [N, F, R * C], data = data y\<rparr>"])
    apply (rule exI [where x = "tr y"])
    apply (simp only: r3 [OF assms(3)] r3 [OF assms(4)] t3 pr [OF assms(3)] pr [OF assms(4)]
        wf shp raw)
    apply (simp add: el)
    done
qed

text \<open>The theorem at two stacks of shape \<open>(1, 2, 1, 2)\<close>.\<close>

theorem prepare_reshape_transpose_witness:
  "wf_nd \<lparr>shape = [1, 2, 1, 2], data = [Fin 1, Fin 2, Fin 3, Fin 4]\<rparr> \<and>
   wf_nd \<lparr>shape = [1, 2, 1, 2], data = [Fin 5, Fin 6, Fin 7, Fin 8]\<rparr> \<and>
   prepare \<lparr>shape = [1, 2, 1, 2], data = [Fin 1, Fin 2, Fin 3, Fin 4]\<rparr> 1 2 1 2
     = Inr \<lparr>shape = [1, 2, 2], data = [Fin 1, Fin 3, Fin 2, Fin 4]\<rparr> \<and>
   prepare \<lparr>shape = [1, 2, 1, 2], data = [Fin 5, Fin 6, Fin 7, Fin 8]\<rparr> 1 2 1 2
     = Inr \<lparr>shape = [1, 2, 2], data = [Fin 5, Fin 7, Fin 6, Fin 8]\<rparr>"
proof -
  let ?x = "\<lparr>shape = [1, 2, 1, 2], data = [Fin 1, Fin 2, Fin 3, Fin 4]\<rparr>"
  let ?y = "\<lparr>shape = [1, 2, 1, 2], data = [Fin 5, Fin 6, Fin 7, Fin 8]\<rparr>"
  have h: "wf_nd ?x" "wf_nd ?y" "shape ?x = [1, 2, 1, 2]" "shape ?y = [1, 2, 1, 2]"
    by (simp_all add: eval_defs)
  have v: "prepare ?x 1 2 1 2 = Inr \<lparr>shape = [1, 2, 2], data = [Fin 1, Fin 3, Fin 2, Fin 4]\<rparr>"
    "prepare ?y 1 2 1 2 = Inr \<lparr>shape = [1, 2, 2], data = [Fin 5, Fin 7, Fin 6, Fin 8]\<rparr>"
    by code_simp+
  from prepare_reshape_transpose [OF h] h v show ?thesis by simp
qed

text \<open>
  Claim C6. If the creation call raises a client error with the code \<open>ValidationError\<close>
  and a message containing \<open>Pipeline names must be unique within\<close>, the cell calls
  describe and continues with the described pipeline's ARN (it tags that ARN). Every
  other exception of the creation call is the cell's outcome, and no further call is made.
\<close>

theorem create_pipeline_fallback:
  "(create_outcome env = Inl (ClientError ''ValidationError'' message) \<and>
    str_contains message ''Pipeline names must be unique within'' \<and>
    describe_outcome env = Inr response \<and> response ''PipelineArn'' = Some arn \<longrightarrow>
      calls (create_pipeline_cell env) = [PipelineCreate, PipelineDescribe, AddTags arn] \<and>
      outcome (create_pipeline_cell env)
        = (case add_tags_outcome env of None \<Rightarrow> Inr arn | Some e \<Rightarrow> Inl e)) \<and>
   (create_outcome env = Inl e \<and>
    \<not> (\<exists>message. e = ClientError ''ValidationError'' message \<and>
          str_contains message ''Pipeline names must be unique within'') \<longrightarrow>
      calls (create_pipeline_cell env) = [PipelineCreate] \<and>
      outcome (create_pipeline_cell env) = Inl e)"
  by (cases e)
     (auto simp: create_pipeline_cell_def tag_pipeline_def get_item_def split: option.splits)

text \<open>The theorem at a duplicate-name error and at an access-denied error.\<close>

theorem create_pipeline_fallback_witness:
  "str_contains ''Pipeline names must be unique within an AWS account and region''
      ''Pipeline names must be unique within'' \<and>
   calls (create_pipeline_cell
     \<lparr>create_outcome = Inl (ClientError ''ValidationError''
          ''Pipeline names must be unique within an AWS account and region''),
      describe_outcome = Inr [''PipelineArn'' \<mapsto> ''arn:p''],
      add_tags_outcome = None\<rparr>) = [PipelineCreate, PipelineDescribe, AddTags ''arn:p''] \<and>
   outcome (create_pipeline_cell
     \<lparr>create_outcome = Inl (ClientError ''ValidationError''
          ''Pipeline names must be unique within an AWS account and region''),
      describe_outcome = Inr [''PipelineArn'' \<mapsto> ''arn:p''],
      add_tags_outcome = None\<rparr>) = Inr ''arn:p'' \<and>
   calls (create_pipeline_cell
     \<lparr>create_outcome = Inl (ClientError ''AccessDeniedException'' ''denied''),
      describe_outcome = Inr [''PipelineArn'' \<mapsto> ''arn:p''],
      add_tags_outcome = None\<rparr>) = [PipelineCreate] \<and>
   outcome (create_pipeline_cell
     \<lparr>create_outcome = Inl (ClientError ''AccessDeniedException'' ''denied''),
      describe_outcome = Inr [''PipelineArn'' \<mapsto> ''arn:p''],
      add_tags_outcome = None\<rparr>) = Inl (ClientError ''AccessDeniedException'' ''denied'')"
proof -
  let ?m = "''Pipeline names must be unique within an AWS account and region''"
  let ?e1 = "\<lparr>create_outcome = Inl (ClientError ''ValidationError'' ?m),
      describe_outcome = Inr [''PipelineArn'' \<mapsto> ''arn:p''],
      add_tags_outcome = None\<rparr>"
  let ?e2 = "\<lparr>create_outcome = Inl (ClientError ''AccessDeniedException'' ''denied''),
      describe_outcome = Inr [''PipelineArn'' \<mapsto> ''arn:p''],
      add_tags_outcome = None\<rparr>"
  have c: "str_contains ?m ''Pipeline names must be unique within''"
    by simp
  show ?thesis
    using c
      create_pipeline_fallback [of ?e1 ?m "[''PipelineArn'' \<mapsto> ''arn:p'']" "''arn:p''" AssertionError]
      create_pipeline_fallback [of ?e2 "[]" Map.empty "[]"
          "ClientError ''AccessDeniedException'' ''denied''"]
    by simp
qed

text \<open>
  Claim C7. Each of the three wait loops describes the job again and again, sleeping a fixed
  interval between two polls (30 seconds for the pipeline execution, 5 seconds for the
  compilation and the edge packaging job). It leaves by \<open>break\<close> exactly at the first poll
  whose status is outside the running set (\<open>Executing\<close>; \<open>STARTING\<close> or \<open>INPROGRESS\<close>),
  having slept once per earlier poll; while every observed status is in the running set it
  never leaves.
\<close>

theorem wait_loops_exit_when_status_leaves_running:
  "((\<forall>i<k. d i = Inr ''Executing'') \<and> d k = Inr s \<and> s \<noteq> ''Executing'' \<longrightarrow>
      wait_pipeline_execution name d =
        Some (Inr s, \<lparr>polls = Suc k, slept = k * 30,
                      shown = replicate k ''Running...'' @ [s @ '' '' @ name]\<rparr>)) \<and>
   ((\<forall>i. d i = Inr ''Executing'') \<longrightarrow> wait_pipeline_execution name d = None) \<and>
   (wait_pipeline_execution name d = Some (Inr s', st) \<longrightarrow>
      s' \<noteq> ''Executing'' \<and> 0 < polls st \<and> d (polls st - 1) = Inr s' \<and>
      (\<forall>i<polls st - 1. d i = Inr ''Executing'') \<and> slept st = (polls st - 1) * 30) \<and>
   ((\<forall>i<k. d i = Inr ''STARTING'' \<or> d i = Inr ''INPROGRESS'') \<and> d k = Inr s \<and>
    s \<noteq> ''STARTING'' \<and> s \<noteq> ''INPROGRESS'' \<longrightarrow>
      wait_compilation_job name d =
        Some (Inr s, \<lparr>polls = Suc k, slept = k * 5,
                      shown = replicate k ''Running...'' @ [s @ '' '' @ name]\<rparr>) \<and>
      wait_edge_packaging_job name d =
        Some (Inr s, \<lparr>polls = Suc k, slept = k * 5,
                      shown = replicate k ''Running...'' @ [s @ '' '' @ name]\<rparr>)) \<and>
   ((\<forall>i. d i = Inr ''STARTING'' \<or> d i = Inr ''INPROGRESS'') \<longrightarrow>
      wait_compilation_job name d = None \<and> wait_edge_packaging_job name d = None) \<and>
   (wait_compilation_job name d = Some (Inr s', st) \<or>
    wait_edge_packaging_job name d = Some (Inr s', st) \<longrightarrow>
      s' \<noteq> ''STARTING'' \<and> s' \<noteq> ''INPROGRESS'' \<and> 0 < polls st \<and> d (polls st - 1) = Inr s' \<and>
      (\<forall>i<polls st - 1. d i = Inr ''STARTING'' \<or> d i = Inr ''INPROGRESS'') \<and>
      slept st = (polls st - 1) * 5)"
proof -
  let ?job = "\<lambda>status. List.member [''STARTING'', ''INPROGRESS''] status"
  have p1: "(\<forall>i<k. d i = Inr ''Executing'') \<and> d k = Inr s \<and> s \<noteq> ''Executing'' \<longrightarrow>
      wait_pipeline_execution name d =
        Some (Inr s, \<lparr>polls = Suc k, slept = k * 30,
                      shown = replicate k ''Running...'' @ [s @ '' '' @ name]\<rparr>)"
  proof (rule impI)
    assume a: "(\<forall>i<k. d i = Inr ''Executing'') \<and> d k = Inr s \<and> s \<noteq> ''Executing''"
    then have b: "\<forall>i<k. \<exists>r. d i = Inr r \<and> r = ''Executing''" by simp
    have dk: "d k = Inr s" and ns: "\<not> s = ''Executing''" using a by simp_all
    show "wait_pipeline_execution name d =
        Some (Inr s, \<lparr>polls = Suc k, slept = k * 30,
                      shown = replicate k ''Running...'' @ [s @ '' '' @ name]\<rparr>)"
      unfolding wait_pipeline_execution_def by (rule wait_loop_exit [OF b dk ns])
  qed
  have p2: "(\<forall>i. d i = Inr ''Executing'') \<longrightarrow> wait_pipeline_execution name d = None"
  proof (rule impI)
    assume "\<forall>i. d i = Inr ''Executing''"
    then have b: "\<forall>i. \<exists>r. d i = Inr r \<and> r = ''Executing''" by simp
    show "wait_pipeline_execution name d = None"
      unfolding wait_pipeline_execution_def by (rule wait_loop_never_exits [OF b])
  qed
  have p3: "wait_pipeline_execution name d = Some (Inr s', st) \<longrightarrow>
      s' \<noteq> ''Executing'' \<and> 0 < polls st \<and> d (polls st - 1) = Inr s' \<and>
      (\<forall>i<polls st - 1. d i = Inr ''Executing'') \<and> slept st = (polls st - 1) * 30"
  proof (rule impI)
    assume "wait_pipeline_execution name d = Some (Inr s', st)"
    then have "wait_loop (\<lambda>status. status = ''Executing'') 30 name d wait_start = Some (Inr s', st)"
      by (simp only: wait_pipeline_execution_def)
    from wait_loop_break_only_if [OF this]
    show "s' \<noteq> ''Executing'' \<and> 0 < polls st \<and> d (polls st - 1) = Inr s' \<and>
      (\<forall>i<polls st - 1. d i = Inr ''Executing'') \<and> slept st = (polls st - 1) * 30"
      by simp
  qed
  have p4: "(\<forall>i<k. d i = Inr ''STARTING'' \<or> d i = Inr ''INPROGRESS'') \<and> d k = Inr s \<and>
    s \<noteq> ''STARTING'' \<and> s \<noteq> ''INPROGRESS'' \<longrightarrow>
      wait_compilation_job name d =
        Some (Inr s, \<lparr>polls = Suc k, slept = k * 5,
                      shown = replicate k ''Running...'' @ [s @ '' '' @ name]\<rparr>) \<and>
      wait_edge_packaging_job name d =
        Some (Inr s, \<lparr>polls = Suc k, slept = k * 5,
                      shown = replicate k ''Running...'' @ [s @ '' '' @ name]\<rparr>)"
  proof (rule impI)
    assume a: "(\<forall>i<k. d i = Inr ''STARTING'' \<or> d i = Inr ''INPROGRESS'') \<and> d k = Inr s \<and>
      s \<noteq> ''STARTING'' \<and> s \<noteq> ''INPROGRESS''"
    have b: "\<forall>i<k. \<exists>r. d i = Inr r \<and> ?job r"
    proof (intro allI impI)
      fix i assume "i < k"
      with a have "d i = Inr ''STARTING'' \<or> d i = Inr ''INPROGRESS''" by simp
      then show "\<exists>r. d i = Inr r \<and> ?job r" by (auto simp: member_running)
    qed
    have c: "\<not> ?job s" using a by (simp add: member_running)
    have dk: "d k = Inr s" using a by simp
    note e = wait_loop_exit [OF b dk c, of 5 name]
    show "wait_compilation_job name d =
        Some (Inr s, \<lparr>polls = Suc k, slept = k * 5,
                      shown = replicate k ''Running...'' @ [s @ '' '' @ name]\<rparr>) \<and>
      wait_edge_packaging_job name d =
        Some (Inr s, \<lparr>polls = Suc k, slept = k * 5,
                      shown = replicate k ''Running...'' @ [s @ '' '' @ name]\<rparr>)"
      unfolding wait_compilation_job_def wait_edge_packaging_job_def using e by (intro conjI)
  qed
  have p5: "(\<forall>i. d i = Inr ''STARTING'' \<or> d i = Inr ''INPROGRESS'') \<longrightarrow>
      wait_compilation_job name d = None \<and> wait_edge_packaging_job name d = None"
  proof (rule impI)
    assume a: "\<forall>i. d i = Inr ''STARTING'' \<or> d i = Inr ''INPROGRESS''"
    have b: "\<forall>i. \<exists>r. d i = Inr r \<and> ?job r"
    proof
      fix i
      from a have "d i = Inr ''STARTING'' \<or> d i = Inr ''INPROGRESS''" by simp
      then show "\<exists>r. d i = Inr r \<and> ?job r" by (auto simp: member_running)
    qed
    show "wait_compilation_job name d = None \<and> wait_edge_packaging_job name d = None"
      unfolding wait_compilation_job_def wait_edge_packaging_job_def
      using wait_loop_never_exits [OF b] by (intro conjI)
  qed
  have p6: "wait_compilation_job name d = Some (Inr s', st) \<or>
    wait_edge_packaging_job name d = Some (Inr s', st) \<longrightarrow>
      s' \<noteq> ''STARTING'' \<and> s' \<noteq> ''INPROGRESS'' \<and> 0 < polls st \<and> d (polls st - 1) = Inr s' \<and>
      (\<forall>i<polls st - 1. d i = Inr ''STARTING'' \<or> d i = Inr ''INPROGRESS'') \<and>
      slept st = (polls st - 1) * 5"
  proof (rule impI)
    assume "wait_compilation_job name d = Some (Inr s', st) \<or>
      wait_edge_packaging_job name d = Some (Inr s', st)"
    then have "wait_loop ?job 5 name d wait_start = Some (Inr s', st)"
      unfolding wait_compilation_job_def wait_edge_packaging_job_def by (rule disjE)
    from wait_loop_break_only_if [OF this]
    have r: "\<not> ?job s'" "0 < polls st" "d (polls st - 1) = Inr s'"
      "\<forall>i<polls st - 1. \<exists>r. d i = Inr r \<and> ?job r" "slept st = (polls st - 1) * 5"
      by simp_all
    have "\<forall>i<polls st - 1. d i = Inr ''STARTING'' \<or> d i = Inr ''INPROGRESS''"
    proof (intro allI impI)
      fix i assume "i < polls st - 1"
      with r(4) obtain q where "d i = Inr q" "?job q" by blast
      then show "d i = Inr ''STARTING'' \<or> d i = Inr ''INPROGRESS''"
        by (auto simp: member_running)
    qed
    with r show "s' \<noteq> ''STARTING'' \<and> s' \<noteq> ''INPROGRESS'' \<and> 0 < polls st \<and>
      d (polls st - 1) = Inr s' \<and>
      (\<forall>i<polls st - 1. d i = Inr ''STARTING'' \<or> d i = Inr ''INPROGRESS'') \<and>
      slept st = (polls st - 1) * 5"
      by (simp add: member_running)
  qed
  show ?thesis by (intro conjI p1 p2 p3 p4 p5 p6)
qed

text \<open>
  The theorem at runs that leave the running set at the third poll, and at runs that never do.
\<close>

theorem wait_loops_exit_when_status_leaves_running_witness:
  "wait_pipeline_execution ''arn:x'' (\<lambda>i. if i < 2 then Inr ''Executing'' else Inr ''Succeeded'')
     = Some (Inr ''Succeeded'', \<lparr>polls = 3, slept = 60,
               shown = [''Running...'', ''Running...'', ''Succeeded arn:x'']\<rparr>) \<and>
   wait_pipeline_execution ''arn:x'' (\<lambda>i. Inr ''Executing'') = None \<and>
   wait_compilation_job ''job'' (\<lambda>i. if i < 1 then Inr ''STARTING'' else
                                     if i < 2 then Inr ''INPROGRESS'' else Inr ''COMPLETED'')
     = Some (Inr ''COMPLETED'', \<lparr>polls = 3, slept = 10,
               shown = [''Running...'', ''Running...'', ''COMPLETED job'']\<rparr>) \<and>
   wait_edge_packaging_job ''job'' (\<lambda>i. if i < 1 then Inr ''STARTING'' else
                                     if i < 2 then Inr ''INPROGRESS'' else Inr ''COMPLETED'')
     = Some (Inr ''COMPLETED'', \<lparr>polls = 3, slept = 10,
               shown = [''Running...'', ''Running...'', ''COMPLETED job'']\<rparr>) \<and>
   wait_compilation_job ''job'' (\<lambda>i. Inr ''INPROGRESS'') = None \<and>
   wait_edge_packaging_job ''job'' (\<lambda>i. Inr ''INPROGRESS'') = None"
proof -
  let ?d1 = "\<lambda>i::nat. if i < 2 then Inr ''Executing'' else (Inr ''Succeeded'' :: exn + string)"
  let ?d2 = "\<lambda>i::nat. (Inr ''Executing'' :: exn + string)"
  let ?d3 = "\<lambda>i::nat. if i < 1 then Inr ''STARTING'' else
               if i < 2 then Inr ''INPROGRESS'' else (Inr ''COMPLETED'' :: exn + string)"
  let ?d5 = "\<lambda>i::nat. (Inr ''INPROGRESS'' :: exn + string)"
  note t = wait_loops_exit_when_status_leaves_running
  note c1 = t [THEN conjunct1, THEN mp]
  note c2 = t [THEN conjunct2, THEN conjunct1, THEN mp]
  note c3 = t [THEN conjunct2, THEN conjunct2, THEN conjunct1, THEN mp]
  note c4 = t [THEN conjunct2, THEN conjunct2, THEN conjunct2, THEN conjunct1, THEN mp]
  note c5 = t [THEN conjunct2, THEN conjunct2, THEN conjunct2, THEN conjunct2, THEN conjunct1,
      THEN mp]
  note c6 = t [THEN conjunct2, THEN conjunct2, THEN conjunct2, THEN conjunct2, THEN conjunct2,
      THEN mp]
  have r: "replicate 2 ''Running...'' = [''Running...'', ''Running...'']"
    by (simp add: numeral_2_eq_2)
  have h1: "(\<forall>i<2. ?d1 i = Inr ''Executing'') \<and> ?d1 2 = Inr ''Succeeded'' \<and>
      ''Succeeded'' \<noteq> ''Executing''"
    by simp
  have 1: "wait_pipeline_execution ''arn:x'' ?d1
     = Some (Inr ''Succeeded'', \<lparr>polls = 3, slept = 60,
               shown = [''Running...'', ''Running...'', ''Succeeded arn:x'']\<rparr>)"
    using c1 [of 2 ?d1 "''Succeeded''" "''arn:x''", OF h1] by (simp add: r)
  have 2: "wait_pipeline_execution ''arn:x'' ?d2 = None"
    by (rule c2) simp
  have 3: "''Succeeded'' \<noteq> ''Executing'' \<and> (0::nat) < 3 \<and> ?d1 (3 - 1) = Inr ''Succeeded''"
    using c3 [OF 1] by simp
  have h4: "(\<forall>i<2. ?d3 i = Inr ''STARTING'' \<or> ?d3 i = Inr ''INPROGRESS'') \<and>
      ?d3 2 = Inr ''COMPLETED'' \<and> ''COMPLETED'' \<noteq> ''STARTING'' \<and> ''COMPLETED'' \<noteq> ''INPROGRESS''"
    by simp
  have 4: "wait_compilation_job ''job'' ?d3
     = Some (Inr ''COMPLETED'', \<lparr>polls = 3, slept = 10,
               shown = [''Running...'', ''Running...'', ''COMPLETED job'']\<rparr>) \<and>
     wait_edge_packaging_job ''job'' ?d3
     = Some (Inr ''COMPLETED'', \<lparr>polls = 3, slept = 10,
               shown = [''Running...'', ''Running...'', ''COMPLETED job'']\<rparr>)"
    using c4 [of 2 ?d3 "''COMPLETED''" "''job''", OF h4] by (simp add: r)
  have 5: "wait_compilation_job ''job'' ?d5 = None \<and> wait_edge_packaging_job ''job'' ?d5 = None"
    by (rule c5) simp
  have 6: "''COMPLETED'' \<noteq> ''STARTING'' \<and> ''COMPLETED'' \<noteq> ''INPROGRESS''"
    using c6 [OF disjI1, OF 4 [THEN conjunct1]] by simp
  from 1 2 3 4 5 6 show ?thesis by simp
qed

text \<open>
  Claim C8, amended. For a stack of shape \<open>(N, F, R, C)\<close> with at least one sample and a
  prediction stack with as many elements, with arbitrary finite, infinite or NaN entries,
  every entry of the returned threshold vector is greater than or equal to zero.
\<close>

theorem thresholds_nonneg:
  assumes "wf_nd x" and "wf_nd y" and "shape x = [N, F, R, C]" and "size_nd y = N * F * R * C"
    and "0 < N"
  shows "\<exists>t. thresholds x y = Inr t \<and> length (data t) = F \<and> (\<forall>v\<in>set (data t). fl_nonneg v)"
  by (simp add: thresholds_closed [OF assms(3,4)] spec_threshold_nonneg [OF assms(5)])

text \<open>The theorem at stacks in which one difference is \<open>inf - inf\<close>.\<close>

theorem thresholds_nonneg_witness:
  "wf_nd \<lparr>shape = [2, 1, 1, 1], data = [Fin 3, NInf]\<rparr> \<and>
   wf_nd \<lparr>shape = [2, 1, 1, 1], data = [Fin 1, NInf]\<rparr> \<and>
   size_nd \<lparr>shape = [2, 1, 1, 1], data = [Fin 1, NInf]\<rparr> = 2 * 1 * 1 * 1 \<and>
   (0::nat) < 2 \<and>
   thresholds \<lparr>shape = [2, 1, 1, 1], data = [Fin 3, NInf]\<rparr>
              \<lparr>shape = [2, 1, 1, 1], data = [Fin 1, NInf]\<rparr>
     = Inr \<lparr>shape = [1], data = [Fin 1]\<rparr> \<and>
   fl_nonneg (Fin 1)"
proof -
  let ?x = "\<lparr>shape = [2, 1, 1, 1], data = [Fin 3, NInf]\<rparr>"
  let ?y = "\<lparr>shape = [2, 1, 1, 1], data = [Fin 1, NInf]\<rparr>"
  have h: "wf_nd ?x" "wf_nd ?y" "shape ?x = [2, 1, 1, 1]" "size_nd ?y = 2 * 1 * 1 * 1" "(0::nat) < 2"
    by (simp_all add: eval_defs)
  have v: "thresholds ?x ?y = Inr \<lparr>shape = [1], data = [Fin 1]\<rparr>"
    by code_simp
  from thresholds_nonneg [OF h] h v show ?thesis by simp
qed

text \<open>
  Claim C8 as stated fails for a stack without samples: the returned entry is NaN, which is
  not greater than or equal to zero.
\<close>

theorem thresholds_nonneg_counterexample:
  "wf_nd \<lparr>shape = [0, 1, 2, 2], data = []\<rparr> \<and>
   thresholds \<lparr>shape = [0, 1, 2, 2], data = []\<rparr> \<lparr>shape = [0, 1, 2, 2], data = []\<rparr>
     = Inr \<lparr>shape = [1], data = [NaN]\<rparr> \<and>
   \<not> fl_nonneg NaN"
  by code_simp

text \<open>
  Claim C9. The prediction stack need not have the input stack's shape: it is reshaped with
  the dimensions of the input stack. The computation returns a vector when the prediction
  stack has \<open>N * F * R * C\<close> elements, and fails with the reshape error when it has not.
\<close>

theorem thresholds_reshape_error_iff:
  assumes "wf_nd x" and "wf_nd y" and "shape x = [N, F, R, C]"
  shows "(size_nd y = N * F * R * C \<longrightarrow> (\<exists>t. thresholds x y = Inr t \<and> shape t = [F])) \<and>
         (size_nd y \<noteq> N * F * R * C \<longrightarrow> thresholds x y = Inl ReshapeError)"
proof (intro conjI impI)
  assume "size_nd y = N * F * R * C"
  then show "\<exists>t. thresholds x y = Inr t \<and> shape t = [F]"
    by (simp add: thresholds_closed [OF assms(3)])
next
  assume ne: "size_nd y \<noteq> N * F * R * C"
  have sx: "size_nd x = N * F * (R * C)" using assms(3) by (simp add: size_nd_def)
  have "prepare y N F R C = Inl ReshapeError"
    using ne by (simp add: prepare_def reshape3_def bind_err_def mult.assoc)
  then show "thresholds x y = Inl ReshapeError"
    by (simp add: thresholds_def mae_loss_def mae_loss_raw_def assms(3) prepare_closed [OF sx]
        bind_err_def)
qed

text \<open>
  The theorem at a prediction stack of shape \<open>(2, 2)\<close> for an input of shape
  \<open>(1, 2, 1, 2)\<close>, and at one with three elements.
\<close>

theorem thresholds_reshape_error_iff_witness:
  "wf_nd \<lparr>shape = [1, 2, 1, 2], data = [Fin 1, Fin 2, Fin 3, Fin 4]\<rparr> \<and>
   wf_nd \<lparr>shape = [2, 2], data = [Fin 1, Fin 2, Fin 3, Fin 6]\<rparr> \<and>
   size_nd \<lparr>shape = [2, 2], data = [Fin 1, Fin 2, Fin 3, Fin 6]\<rparr> = 1 * 2 * 1 * 2 \<and>
   thresholds \<lparr>shape = [1, 2, 1, 2], data = [Fin 1, Fin 2, Fin 3, Fin 4]\<rparr>
              \<lparr>shape = [2, 2], data = [Fin 1, Fin 2, Fin 3, Fin 6]\<rparr>
     = Inr \<lparr>shape = [2], data = [Fin 0, Fin 1]\<rparr> \<and>
   wf_nd \<lparr>shape = [1, 1, 1, 3], data = [Fin 1, Fin 2, Fin 3]\<rparr> \<and>
   size_nd \<lparr>shape = [1, 1, 1, 3], data = [Fin 1, Fin 2, Fin 3]\<rparr> \<noteq> 1 * 2 * 1 * 2 \<and>
   thresholds \<lparr>shape = [1, 2, 1, 2], data = [Fin 1, Fin 2, Fin 3, Fin 4]\<rparr>
              \<lparr>shape = [1, 1, 1, 3], data = [Fin 1, Fin 2, Fin 3]\<rparr>
     = Inl ReshapeError"
proof -
  let ?x = "\<lparr>shape = [1, 2, 1, 2], data = [Fin 1, Fin 2, Fin 3, Fin 4]\<rparr>"
  let ?y = "\<lparr>shape = [2, 2], data = [Fin 1, Fin 2, Fin 3, Fin 6]\<rparr>"
  let ?z = "\<lparr>shape = [1, 1, 1, 3], data = [Fin 1, Fin 2, Fin 3]\<rparr>"
  have h: "wf_nd ?x" "wf_nd ?y" "wf_nd ?z" "shape ?x = [1, 2, 1, 2]"
    by (simp_all add: eval_defs)
  have s: "size_nd ?y = 1 * 2 * 1 * 2" "size_nd ?z \<noteq> 1 * 2 * 1 * 2"
    by (simp_all add: eval_defs)
  have v: "thresholds ?x ?y = Inr \<lparr>shape = [2], data = [Fin 0, Fin 1]\<rparr>"
    by code_simp
  from thresholds_reshape_error_iff [OF h(1,2,4)] thresholds_reshape_error_iff [OF h(1,3,4)] h s v
  show ?thesis by simp
qed

text \<open>
  Claim C10. After the pipeline run the cell lists the completed training jobs whose name
  contains the pipeline execution id (the last segment of the execution's ARN). If the list
  does not hold exactly one job the cell raises an assertion error, and no later call is
  made: no download, and none of the later cells. With exactly one job the cell goes on
  to attach the estimator to it.
\<close>

theorem setup_cell_asserts_one_training_job:
  "(\<exists>cs. fst (run_from_setup env arn later_cells)
           = ListTrainingJobs (last (split_on CHR ''/'' arn)) ''Completed'' # cs) \<and>
   (list_training_jobs env (last (split_on CHR ''/'' arn)) ''Completed'' = Inr jobs \<and>
    length jobs \<noteq> 1 \<longrightarrow>
      run_from_setup env arn later_cells
        = ([ListTrainingJobs (last (split_on CHR ''/'' arn)) ''Completed''], Inl AssertionError)) \<and>
   (list_training_jobs env (last (split_on CHR ''/'' arn)) ''Completed'' = Inr [job] \<and>
    job ''TrainingJobName'' = Some training_job_name \<longrightarrow>
      (\<exists>cs. fst (run_from_setup env arn later_cells)
           = ListTrainingJobs (last (split_on CHR ''/'' arn)) ''Completed''
               # AttachEstimator training_job_name # cs))"
proof -
  obtain cs0 where cs0: "fst (run_from_setup env arn later_cells) = fst (setup_cell env arn) @ cs0"
    using run_from_setup_calls by blast
  have p1: "\<exists>cs. fst (run_from_setup env arn later_cells)
           = ListTrainingJobs (last (split_on CHR ''/'' arn)) ''Completed'' # cs"
    using setup_cell_first_call [of env arn] cs0 by auto
  have p2: "list_training_jobs env (last (split_on CHR ''/'' arn)) ''Completed'' = Inr jobs \<and>
    length jobs \<noteq> 1 \<longrightarrow>
      run_from_setup env arn later_cells
        = ([ListTrainingJobs (last (split_on CHR ''/'' arn)) ''Completed''], Inl AssertionError)"
  proof (rule impI)
    assume a: "list_training_jobs env (last (split_on CHR ''/'' arn)) ''Completed'' = Inr jobs \<and>
      length jobs \<noteq> 1"
    then have l: "list_training_jobs env (last (split_on CHR ''/'' arn)) ''Completed'' = Inr jobs"
      and n: "length jobs \<noteq> 1" by blast+
    have "setup_cell env arn
      = ([ListTrainingJobs (last (split_on CHR ''/'' arn)) ''Completed''], Inl AssertionError)"
      by (rule setup_cell_assert [OF l n])
    then show "run_from_setup env arn later_cells
        = ([ListTrainingJobs (last (split_on CHR ''/'' arn)) ''Completed''], Inl AssertionError)"
      by (simp add: run_from_setup_def)
  qed
  have p3: "list_training_jobs env (last (split_on CHR ''/'' arn)) ''Completed'' = Inr [job] \<and>
    job ''TrainingJobName'' = Some training_job_name \<longrightarrow>
      (\<exists>cs. fst (run_from_setup env arn later_cells)
           = ListTrainingJobs (last (split_on CHR ''/'' arn)) ''Completed''
               # AttachEstimator training_job_name # cs)"
  proof (rule impI)
    assume a: "list_training_jobs env (last (split_on CHR ''/'' arn)) ''Completed'' = Inr [job] \<and>
      job ''TrainingJobName'' = Some training_job_name"
    then obtain cs where "fst (setup_cell env arn)
      = ListTrainingJobs (last (split_on CHR ''/'' arn)) ''Completed''
          # AttachEstimator training_job_name # cs"
      using setup_cell_one_job [of env arn job training_job_name] by blast
    then show "\<exists>cs. fst (run_from_setup env arn later_cells)
           = ListTrainingJobs (last (split_on CHR ''/'' arn)) ''Completed''
               # AttachEstimator training_job_name # cs"
      using cs0 by simp
  qed
  show ?thesis by (intro conjI p1 p2 p3)
qed

text \<open>The theorem at a listing of two jobs and at a listing of one job.\<close>

theorem setup_cell_asserts_one_training_job_witness:
  "run_from_setup
     \<lparr>list_training_jobs = (\<lambda>name_contains status_equals.
          Inr [ [''TrainingJobName'' \<mapsto> ''pipelines-abc123-Train-1''],
               [''TrainingJobName'' \<mapsto> ''pipelines-abc123-Train-2'']]),
      attach = (\<lambda>n. None), describe_training_job = (\<lambda>n. Inr ''s3://bucket/prefix/train''),
      download_data = (\<lambda>b k p. None)\<rparr>
     ''arn:aws:sagemaker:eu-west-1:1:pipeline/p/execution/abc123''
     (\<lambda>n. ([AddTags n], Inr ()))
     = ([ListTrainingJobs ''abc123'' ''Completed''], Inl AssertionError) \<and>
   fst (run_from_setup
     \<lparr>list_training_jobs = (\<lambda>name_contains status_equals.
          Inr [ [''TrainingJobName'' \<mapsto> ''pipelines-abc123-Train-1'']]),
      attach = (\<lambda>n. None), describe_training_job = (\<lambda>n. Inr ''s3://bucket/prefix/train''),
      download_data = (\<lambda>b k p. None)\<rparr>
     ''arn:aws:sagemaker:eu-west-1:1:pipeline/p/execution/abc123''
     (\<lambda>n. ([AddTags n], Inr ())))
     = [ListTrainingJobs ''abc123'' ''Completed'', AttachEstimator ''pipelines-abc123-Train-1'',
        DescribeTrainingJob ''pipelines-abc123-Train-1'',
        DownloadData ''bucket'' ''prefix/train'' ''data/input/'',
        AddTags ''pipelines-abc123-Train-1'']"
proof -
  let ?j1 = "[''TrainingJobName'' \<mapsto> ''pipelines-abc123-Train-1'']"
  let ?j2 = "[''TrainingJobName'' \<mapsto> ''pipelines-abc123-Train-2'']"
  let ?e2 = "\<lparr>list_training_jobs = (\<lambda>name_contains status_equals. Inr [?j1, ?j2]),
      attach = (\<lambda>n. None), describe_training_job = (\<lambda>n. Inr ''s3://bucket/prefix/train''),
      download_data = (\<lambda>b k p. None)\<rparr>"
  let ?e1 = "\<lparr>list_training_jobs = (\<lambda>name_contains status_equals. Inr [?j1]),
      attach = (\<lambda>n. None), describe_training_job = (\<lambda>n. Inr ''s3://bucket/prefix/train''),
      download_data = (\<lambda>b k p. None)\<rparr>"
  let ?arn = "''arn:aws:sagemaker:eu-west-1:1:pipeline/p/execution/abc123''"
  let ?later = "\<lambda>n::string. ([AddTags n], Inr ()) :: sdk_call list \<times> (exn + unit)"
  have id: "last (split_on CHR ''/'' ?arn) = ''abc123''"
    by code_simp
  note t = setup_cell_asserts_one_training_job
  have a: "run_from_setup ?e2 ?arn ?later
      = ([ListTrainingJobs ''abc123'' ''Completed''], Inl AssertionError)"
    using t [of ?e2 ?arn ?later "[?j1, ?j2]", THEN conjunct2, THEN conjunct1]
    by (simp add: id)
  have b: "\<exists>cs. fst (run_from_setup ?e1 ?arn ?later)
      = ListTrainingJobs ''abc123'' ''Completed'' # AttachEstimator ''pipelines-abc123-Train-1'' # cs"
    using t [of ?e1 ?arn ?later _ ?j1 "''pipelines-abc123-Train-1''", THEN conjunct2, THEN conjunct2]
    by (simp add: id)
  have tk: "split_max CHR ''/'' 3 ''s3://bucket/prefix/train'' = [''s3:'', [], ''bucket'', ''prefix/train'']"
    by code_simp
  have c: "fst (run_from_setup ?e1 ?arn ?later)
     = [ListTrainingJobs ''abc123'' ''Completed'', AttachEstimator ''pipelines-abc123-Train-1'',
        DescribeTrainingJob ''pipelines-abc123-Train-1'',
        DownloadData ''bucket'' ''prefix/train'' ''data/input/'',
        AddTags ''pipelines-abc123-Train-1'']"
    by (simp add: run_from_setup_def setup_cell_def Let_def get_item_def id tk)
  from a b c show ?thesis by simp
qed

end
